theory Spec2Isabelle
  imports Complex_Main "HOL-Library.Sublist" "HOL-Library.Char_ord" "HOL-Library.List_Lexorder"
begin

chapter \<open>Model\<close>

section \<open>Strings\<close>

text \<open>
  Python strings are modelled as \<^typ>\<open>string\<close>, read as the UTF-8 bytes of the text. Substring
  search and replacement on UTF-8 bytes agree with the same operations on code points, and the
  lexicographic order on bytes agrees with Python's order on code points.
\<close>

text \<open>The micro sign (U+00B5) and the capital A with circumflex (U+00C2) in UTF-8.\<close>

definition micro :: string where
  "micro = [CHR 0xC2, CHR 0xB5]"

definition a_circumflex :: string where
  "a_circumflex = [CHR 0xC3, CHR 0x82]"

text \<open>\<^verbatim>\<open>sub in s\<close>\<close>

definition str_contains :: "string \<Rightarrow> string \<Rightarrow> bool" where
  "str_contains s sub = sublist sub s"

text \<open>
  \<^verbatim>\<open>s.replace(old, new)\<close>: every non-overlapping occurrence, scanning from the left. With an
  empty \<open>old\<close> Python puts \<open>new\<close> before every character and at the end.
\<close>

function str_replace :: "string \<Rightarrow> string \<Rightarrow> string \<Rightarrow> string" where
  "str_replace old new [] = (if old = [] then new else [])"
| "str_replace old new (c # cs) =
     (if old = [] then new @ c # str_replace old new cs
      else if prefix old (c # cs) then new @ str_replace old new (drop (length old) (c # cs))
      else c # str_replace old new cs)"
  by pat_completeness auto
termination
  by (relation "measure (\<lambda>(old, new, s). length s)") auto

text \<open>\<^verbatim>\<open>s.replace(old, new, 1)\<close>: the first occurrence only.\<close>

fun str_replace_first :: "string \<Rightarrow> string \<Rightarrow> string \<Rightarrow> string" where
  "str_replace_first old new [] = (if old = [] then new else [])"
| "str_replace_first old new (c # cs) =
     (if prefix old (c # cs) then new @ drop (length old) (c # cs)
      else c # str_replace_first old new cs)"

section \<open>Column Normalizer: \<^verbatim>\<open>remove_dots\<close>\<close>

text \<open>
  \<^verbatim>\<open>\d\<close> in a pattern on \<^verbatim>\<open>str\<close>: the decimal digits of Unicode (category Nd, 660 code points
  in Unicode 14.0, the table of Python 3.11). Each entry is a range of code points: the UTF-8
  bytes they share, and the lowest and highest last byte. The first entry is \<^verbatim>\<open>0\<close> to \<^verbatim>\<open>9\<close>.
\<close>

definition decimal_digits :: "(string \<times> char \<times> char) list" where
  "decimal_digits =
     [([], CHR 0x30, CHR 0x39), ([CHR 0xD9], CHR 0xA0, CHR 0xA9),
      ([CHR 0xDB], CHR 0xB0, CHR 0xB9), ([CHR 0xDF], CHR 0x80, CHR 0x89),
      ([CHR 0xE0, CHR 0xA5], CHR 0xA6, CHR 0xAF), ([CHR 0xE0, CHR 0xA7], CHR 0xA6, CHR 0xAF),
      ([CHR 0xE0, CHR 0xA9], CHR 0xA6, CHR 0xAF), ([CHR 0xE0, CHR 0xAB], CHR 0xA6, CHR 0xAF),
      ([CHR 0xE0, CHR 0xAD], CHR 0xA6, CHR 0xAF), ([CHR 0xE0, CHR 0xAF], CHR 0xA6, CHR 0xAF),
      ([CHR 0xE0, CHR 0xB1], CHR 0xA6, CHR 0xAF), ([CHR 0xE0, CHR 0xB3], CHR 0xA6, CHR 0xAF),
      ([CHR 0xE0, CHR 0xB5], CHR 0xA6, CHR 0xAF), ([CHR 0xE0, CHR 0xB7], CHR 0xA6, CHR 0xAF),
      ([CHR 0xE0, CHR 0xB9], CHR 0x90, CHR 0x99), ([CHR 0xE0, CHR 0xBB], CHR 0x90, CHR 0x99),
      ([CHR 0xE0, CHR 0xBC], CHR 0xA0, CHR 0xA9), ([CHR 0xE1, CHR 0x81], CHR 0x80, CHR 0x89),
      ([CHR 0xE1, CHR 0x82], CHR 0x90, CHR 0x99), ([CHR 0xE1, CHR 0x9F], CHR 0xA0, CHR 0xA9),
      ([CHR 0xE1, CHR 0xA0], CHR 0x90, CHR 0x99), ([CHR 0xE1, CHR 0xA5], CHR 0x86, CHR 0x8F),
      ([CHR 0xE1, CHR 0xA7], CHR 0x90, CHR 0x99), ([CHR 0xE1, CHR 0xAA], CHR 0x80, CHR 0x89),
      ([CHR 0xE1, CHR 0xAA], CHR 0x90, CHR 0x99), ([CHR 0xE1, CHR 0xAD], CHR 0x90, CHR 0x99),
      ([CHR 0xE1, CHR 0xAE], CHR 0xB0, CHR 0xB9), ([CHR 0xE1, CHR 0xB1], CHR 0x80, CHR 0x89),
      ([CHR 0xE1, CHR 0xB1], CHR 0x90, CHR 0x99), ([CHR 0xEA, CHR 0x98], CHR 0xA0, CHR 0xA9),
      ([CHR 0xEA, CHR 0xA3], CHR 0x90, CHR 0x99), ([CHR 0xEA, CHR 0xA4], CHR 0x80, CHR 0x89),
      ([CHR 0xEA, CHR 0xA7], CHR 0x90, CHR 0x99), ([CHR 0xEA, CHR 0xA7], CHR 0xB0, CHR 0xB9),
      ([CHR 0xEA, CHR 0xA9], CHR 0x90, CHR 0x99), ([CHR 0xEA, CHR 0xAF], CHR 0xB0, CHR 0xB9),
      ([CHR 0xEF, CHR 0xBC], CHR 0x90, CHR 0x99),
      ([CHR 0xF0, CHR 0x90, CHR 0x92], CHR 0xA0, CHR 0xA9),
      ([CHR 0xF0, CHR 0x90, CHR 0xB4], CHR 0xB0, CHR 0xB9),
      ([CHR 0xF0, CHR 0x91, CHR 0x81], CHR 0xA6, CHR 0xAF),
      ([CHR 0xF0, CHR 0x91, CHR 0x83], CHR 0xB0, CHR 0xB9),
      ([CHR 0xF0, CHR 0x91, CHR 0x84], CHR 0xB6, CHR 0xBF),
      ([CHR 0xF0, CHR 0x91, CHR 0x87], CHR 0x90, CHR 0x99),
      ([CHR 0xF0, CHR 0x91, CHR 0x8B], CHR 0xB0, CHR 0xB9),
      ([CHR 0xF0, CHR 0x91, CHR 0x91], CHR 0x90, CHR 0x99),
      ([CHR 0xF0, CHR 0x91, CHR 0x93], CHR 0x90, CHR 0x99),
      ([CHR 0xF0, CHR 0x91, CHR 0x99], CHR 0x90, CHR 0x99),
      ([CHR 0xF0, CHR 0x91, CHR 0x9B], CHR 0x80, CHR 0x89),
      ([CHR 0xF0, CHR 0x91, CHR 0x9C], CHR 0xB0, CHR 0xB9),
      ([CHR 0xF0, CHR 0x91, CHR 0xA3], CHR 0xA0, CHR 0xA9),
      ([CHR 0xF0, CHR 0x91, CHR 0xA5], CHR 0x90, CHR 0x99),
      ([CHR 0xF0, CHR 0x91, CHR 0xB1], CHR 0x90, CHR 0x99),
      ([CHR 0xF0, CHR 0x91, CHR 0xB5], CHR 0x90, CHR 0x99),
      ([CHR 0xF0, CHR 0x91, CHR 0xB6], CHR 0xA0, CHR 0xA9),
      ([CHR 0xF0, CHR 0x96, CHR 0xA9], CHR 0xA0, CHR 0xA9),
      ([CHR 0xF0, CHR 0x96, CHR 0xAB], CHR 0x80, CHR 0x89),
      ([CHR 0xF0, CHR 0x96, CHR 0xAD], CHR 0x90, CHR 0x99),
      ([CHR 0xF0, CHR 0x9D, CHR 0x9F], CHR 0x8E, CHR 0xBF),
      ([CHR 0xF0, CHR 0x9E, CHR 0x85], CHR 0x80, CHR 0x89),
      ([CHR 0xF0, CHR 0x9E, CHR 0x8B], CHR 0xB0, CHR 0xB9),
      ([CHR 0xF0, CHR 0x9E, CHR 0xA5], CHR 0x90, CHR 0x99),
      ([CHR 0xF0, CHR 0x9F, CHR 0xAF], CHR 0xB0, CHR 0xB9)]"

text \<open>The text starts with a decimal digit.\<close>

definition digit_ahead :: "string \<Rightarrow> bool" where
  "digit_ahead s =
     list_ex (\<lambda>(p, lo, hi). prefix p s
                \<and> (case drop (length p) s of [] \<Rightarrow> False | b # rest \<Rightarrow> lo \<le> b \<and> b \<le> hi))
             decimal_digits"

text \<open>The text read so far, given backwards, ends with a decimal digit.\<close>

definition digit_behind :: "string \<Rightarrow> bool" where
  "digit_behind behind =
     (case behind of [] \<Rightarrow> False
      | b # rest \<Rightarrow> list_ex (\<lambda>(p, lo, hi). lo \<le> b \<and> b \<le> hi \<and> prefix (rev p) rest)
                           decimal_digits)"

text \<open>
  \<^verbatim>\<open>re.sub(r"(?<!\d)\.(?!\d)", " ", s)\<close>: a period is replaced when the character before it is
  not a digit and the character after it is not a digit. Both look-arounds read the subject
  string, so the scan carries the part of the input it has passed, backwards.
\<close>

fun sub_period :: "string \<Rightarrow> string \<Rightarrow> string" where
  "sub_period behind [] = []"
| "sub_period behind (c # cs) =
     (if c = CHR ''.'' \<and> \<not> digit_behind behind \<and> \<not> digit_ahead cs
      then CHR '' '' else c) # sub_period (c # behind) cs"

definition specific_matches :: "(string \<times> string) list" where
  "specific_matches =
     [(''MHC.I..'', ''MHC I (''),
      (''MHC.II..'', ''MHC II (''),
      (''MHC_I_.'', ''MHC_I_(''),
      (''MHC_II_.'', ''MHC_II_(''),
      (''Target.'', ''Target:''),
      (''Beta.Tubulin'', ''Beta-Tubulin''),
      (''IFN.y'', ''IFN-y''),
      (''HLA.DR'', ''HLA-DR'')]"

definition remove_dots_name :: "string \<Rightarrow> string" where
  "remove_dots_name c0 =
     (let c1 = str_replace (a_circumflex @ micro @ ''m'') (micro @ ''m'') c0;
          c2 = str_replace (micro @ ''m.2'') (micro @ ''m^2'') c1;
          c3 = fold (\<lambda>(m, r) c. str_replace m r c) specific_matches c2;
          c4 = str_replace ''...'' ''): '' c3;
          c5 = str_replace ''..'' '': '' c4;
          c6 = str_replace ''Std.Dev.'' ''STD_DEV_PLACEHOLDER'' c5;
          c7 = sub_period [] c6;
          c8 = str_replace ''STD_DEV_PLACEHOLDER'' ''Std.Dev.'' c7
      in c8)"


section \<open>Tables\<close>

text \<open>
  A cell of a pandas table: missing (\<^verbatim>\<open>NaN\<close>/\<^verbatim>\<open>None\<close>), a number or a string. Numbers are exact
  rationals: the rounding of binary floating point is outside this model.
\<close>

datatype cell = NaN | Num rat | Str string

fun is_str :: "cell \<Rightarrow> bool" where
  "is_str (Str s) = True"
| "is_str c = False"

text \<open>
  A \<^verbatim>\<open>DataFrame\<close> with the default row index \<^verbatim>\<open>0..nrows-1\<close>: the columns in order, each a label
  and its cells. Labels may repeat.
\<close>

record dataframe =
  nrows :: nat
  cols :: "(string \<times> cell list) list"

definition columns :: "dataframe \<Rightarrow> string list" where
  "columns df = map fst (cols df)"

definition wf_frame :: "dataframe \<Rightarrow> bool" where
  "wf_frame df = list_all (\<lambda>nc. length (snd nc) = nrows df) (cols df)"

text \<open>What a variable of the source may hold after an assignment.\<close>

datatype pandas_obj = Frame dataframe | Series "cell list"

datatype error =
  KeyError | ValueError | TypeError | AttributeError | IndexError | RuntimeError | IndexingError

text \<open>Sequencing two steps of which the first may raise.\<close>

definition and_then :: "error + 'a \<Rightarrow> ('a \<Rightarrow> error + 'b) \<Rightarrow> error + 'b" where
  "and_then r f = (case r of Inl e \<Rightarrow> Inl e | Inr v \<Rightarrow> f v)"

text \<open>
  \<^verbatim>\<open>df[name]\<close> and \<^verbatim>\<open>df.loc[:, name]\<close> with one label. Where the label is repeated pandas gives a
  frame of all columns of that name; the model reads the first, and the properties below that
  rest on this read are stated for tables whose labels are distinct.
\<close>

definition get_column :: "dataframe \<Rightarrow> string \<Rightarrow> error + cell list" where
  "get_column df name = (case map_of (cols df) name of None \<Rightarrow> Inl KeyError | Some c \<Rightarrow> Inr c)"

text \<open>\<^verbatim>\<open>df.loc[:, name] = values\<close>: overwrites the column of that label, or appends a new one.\<close>

definition set_column :: "dataframe \<Rightarrow> string \<Rightarrow> cell list \<Rightarrow> dataframe" where
  "set_column df name values =
     (if name \<in> set (columns df)
      then df\<lparr>cols := map (\<lambda>nc. if fst nc = name then (name, values) else nc) (cols df)\<rparr>
      else df\<lparr>cols := cols df @ [(name, values)]\<rparr>)"

text \<open>\<^verbatim>\<open>df.drop(labels, axis=1)\<close>, \<^verbatim>\<open>df.drop(columns=labels)\<close>: every column of these labels goes;
  a label that is not in the table raises.\<close>

definition drop_columns :: "dataframe \<Rightarrow> string list \<Rightarrow> error + dataframe" where
  "drop_columns df labels =
     (if list_all (\<lambda>l. l \<in> set (columns df)) labels
      then Inr (df\<lparr>cols := filter (\<lambda>nc. fst nc \<notin> set labels) (cols df)\<rparr>)
      else Inl KeyError)"

text \<open>\<^verbatim>\<open>Series.drop(labels, axis=1)\<close>: a Series has no axis 1, pandas raises \<^verbatim>\<open>ValueError\<close>.\<close>

definition series_drop_axis1 :: "cell list \<Rightarrow> string list \<Rightarrow> error + cell list" where
  "series_drop_axis1 s labels = Inl ValueError"

text \<open>\<^verbatim>\<open>series * k\<close>: a string cell cannot be multiplied by a float.\<close>

fun scale_cell :: "rat \<Rightarrow> cell \<Rightarrow> cell" where
  "scale_cell k (Num r) = Num (r * k)"
| "scale_cell k c = c"

definition mul_scalar :: "cell list \<Rightarrow> rat \<Rightarrow> error + cell list" where
  "mul_scalar s k = (if list_ex is_str s then Inl TypeError else Inr (map (scale_cell k) s))"

text \<open>\<^verbatim>\<open>series.fillna(other)\<close>, both on the same row index.\<close>

definition fillna :: "cell list \<Rightarrow> cell list \<Rightarrow> cell list" where
  "fillna s other = map (\<lambda>(a, b). if a = NaN then b else a) (zip s other)"

section \<open>Coordinate Unit Resolver: \<^verbatim>\<open>convert_pixels_to_micrometre\<close>\<close>

definition um_col :: "string \<Rightarrow> string" where
  "um_col axis = ''Centroid '' @ axis @ '' '' @ micro @ ''m''"

definition px_col :: "string \<Rightarrow> string" where
  "px_col axis = ''Centroid '' @ axis @ '' px''"

text \<open>
  The body of the loop over the two axes, \<^verbatim>\<open>bin/preprocess_cell_type_classification.py\<close>. In
  branch 1 the source assigns the filled micron column, a Series, to \<^verbatim>\<open>expression_df\<close> and then
  calls \<^verbatim>\<open>drop(..., axis=1)\<close> on it, discarding the result. On a later pass a Series has no
  \<^verbatim>\<open>columns\<close>.
\<close>

fun resolve_dim :: "rat \<Rightarrow> pandas_obj \<Rightarrow> string \<Rightarrow> error + pandas_obj" where
  "resolve_dim pixel_size (Series s) axis = Inl AttributeError"
| "resolve_dim pixel_size (Frame df) axis =
     (if um_col axis \<in> set (columns df) \<and> px_col axis \<in> set (columns df) then
        (case get_column df (um_col axis) of Inl e \<Rightarrow> Inl e | Inr um \<Rightarrow>
         (case get_column df (px_col axis) of Inl e \<Rightarrow> Inl e | Inr px \<Rightarrow>
          (case mul_scalar px pixel_size of Inl e \<Rightarrow> Inl e | Inr scaled \<Rightarrow>
           (case series_drop_axis1 (fillna um scaled) [px_col axis] of Inl e \<Rightarrow> Inl e
            | Inr dropped \<Rightarrow> Inr (Series (fillna um scaled))))))
      else if um_col axis \<notin> set (columns df) \<and> px_col axis \<in> set (columns df) then
        (case get_column df (px_col axis) of Inl e \<Rightarrow> Inl e | Inr px \<Rightarrow>
         (case mul_scalar px pixel_size of Inl e \<Rightarrow> Inl e | Inr scaled \<Rightarrow>
          (case drop_columns (set_column df (um_col axis) scaled) [px_col axis] of
             Inl e \<Rightarrow> Inl e
           | Inr df' \<Rightarrow> Inr (Frame df'))))
      else if um_col axis \<in> set (columns df) \<and> px_col axis \<notin> set (columns df) then
        Inr (Frame df)
      else Inl RuntimeError)"

text \<open>The parameter is overwritten by the constant in the first statement of the body.\<close>

definition convert_pixels_to_micrometre :: "dataframe \<Rightarrow> rat \<Rightarrow> error + pandas_obj" where
  "convert_pixels_to_micrometre expression_df pixel_size0 =
     (let pixel_size = 3906 / 10000 in
      case resolve_dim pixel_size (Frame expression_df) ''X'' of Inl e \<Rightarrow> Inl e
      | Inr after_x \<Rightarrow> resolve_dim pixel_size after_x ''Y'')"

text \<open>
  The body of the same loop in \<^verbatim>\<open>scripts/preprocess-training-data.py\<close>: a \<^verbatim>\<open>try\<close> that fills the
  missing micron cells, and a bare \<^verbatim>\<open>except\<close> that builds the micron column from the pixel
  column. The \<^verbatim>\<open>drop\<close> of the \<^verbatim>\<open>try\<close> block discards its result.
\<close>

definition fill_rows :: "cell list \<Rightarrow> cell list \<Rightarrow> rat \<Rightarrow> error + cell list" where
  "fill_rows um px k =
     (if list_ex is_str (map snd (filter (\<lambda>(a, b). a = NaN) (zip um px))) then Inl TypeError
      else Inr (map (\<lambda>(a, b). if a = NaN then scale_cell k b else a) (zip um px)))"

definition resolve_dim_script :: "rat \<Rightarrow> dataframe \<Rightarrow> string \<Rightarrow> error + dataframe" where
  "resolve_dim_script pixel_size df axis =
     (let try_block =
        (case get_column df (um_col axis) of Inl e \<Rightarrow> Inl e | Inr um \<Rightarrow>
         if list_ex (\<lambda>c. c = NaN) um then
           (case get_column df (px_col axis) of Inl e \<Rightarrow> Inl e | Inr px \<Rightarrow>
            (case fill_rows um px pixel_size of Inl e \<Rightarrow> Inl e | Inr filled \<Rightarrow>
             (case drop_columns (set_column df (um_col axis) filled) [px_col axis] of
                Inl e \<Rightarrow> Inl e
              | Inr discarded \<Rightarrow> Inr (set_column df (um_col axis) filled))))
         else Inr df)
      in case try_block of Inr df' \<Rightarrow> Inr df'
         | Inl caught \<Rightarrow>
            (case get_column df (px_col axis) of Inl e \<Rightarrow> Inl e | Inr px \<Rightarrow>
             (case mul_scalar px pixel_size of Inl e \<Rightarrow> Inl e | Inr scaled \<Rightarrow>
              drop_columns (set_column df (um_col axis) scaled) [px_col axis])))"

definition convert_pixels_to_micrometre_script :: "dataframe \<Rightarrow> rat \<Rightarrow> error + dataframe" where
  "convert_pixels_to_micrometre_script expression_df pixel_size0 =
     (let pixel_size = 3906 / 10000 in
      case resolve_dim_script pixel_size expression_df ''X'' of Inl e \<Rightarrow> Inl e
      | Inr after_x \<Rightarrow> resolve_dim_script pixel_size after_x ''Y'')"

text \<open>
  The axes on which the loop body returns a table: the micron column alone, or the pixel column
  alone with no string in it.
\<close>

definition axis_usable :: "dataframe \<Rightarrow> string \<Rightarrow> bool" where
  "axis_usable df a =
     (if um_col a \<in> set (columns df) then px_col a \<notin> set (columns df)
      else (case get_column df (px_col a) of Inl e \<Rightarrow> False | Inr px \<Rightarrow> \<not> list_ex is_str px))"

text \<open>Three small tables: both units on the X axis, pixels only, microns only.\<close>

definition both_units_table :: dataframe where
  "both_units_table =
     \<lparr>nrows = 2,
      cols = [(''Image'', [Str ''roi1'', Str ''roi1'']),
              (um_col ''X'', [Num 5, NaN]),
              (px_col ''X'', [Num 10, Num 100]),
              (um_col ''Y'', [Num 1, Num 2])]\<rparr>"

definition pixel_table :: dataframe where
  "pixel_table =
     \<lparr>nrows = 1,
      cols = [(''Image'', [Str ''roi1'']),
              (px_col ''X'', [Num 100]),
              (px_col ''Y'', [Num 7])]\<rparr>"

definition micron_table :: dataframe where
  "micron_table =
     \<lparr>nrows = 1,
      cols = [(''Image'', [Str ''roi1'']),
              (um_col ''X'', [Num 3]),
              (um_col ''Y'', [Num 4])]\<rparr>"

section \<open>Duplicate Column Merger: \<^verbatim>\<open>remove_prefixes_underscores\<close>, \<^verbatim>\<open>remove_duplicate_columns\<close>\<close>

definition rename_columns :: "(string \<Rightarrow> string) \<Rightarrow> dataframe \<Rightarrow> dataframe" where
  "rename_columns f df = df\<lparr>cols := map (\<lambda>nc. (f (fst nc), snd nc)) (cols df)\<rparr>"

definition remove_prefixes_underscores :: "dataframe \<Rightarrow> dataframe" where
  "remove_prefixes_underscores expression_df =
     rename_columns (\<lambda>c. str_replace ''_'' '' '' (str_replace ''Target:'' [] c)) expression_df"

text \<open>
  \<^verbatim>\<open>columns[columns.duplicated()]\<close>: the labels at the positions where the label has occurred
  before, in order; a label that occurs three times is listed twice.
\<close>

fun duplicated_labels :: "string list \<Rightarrow> string list \<Rightarrow> string list" where
  "duplicated_labels seen [] = []"
| "duplicated_labels seen (n # ns) =
     (if n \<in> set seen then n # duplicated_labels seen ns
      else duplicated_labels (n # seen) ns)"

text \<open>
  \<^verbatim>\<open>df[labels]\<close> and \<^verbatim>\<open>df.loc[:, labels]\<close> with a list of labels: for each label of the list in
  turn, every column of that label; a label that is not in the table raises.
\<close>

definition select_columns :: "dataframe \<Rightarrow> string list \<Rightarrow> error + dataframe" where
  "select_columns df labels =
     (if list_all (\<lambda>l. l \<in> set (columns df)) labels
      then Inr (df\<lparr>cols := concat (map (\<lambda>l. filter (\<lambda>nc. fst nc = l) (cols df)) labels)\<rparr>)
      else Inl KeyError)"

fun nums :: "cell list \<Rightarrow> rat list" where
  "nums [] = []"
| "nums (Num r # cs) = r # nums cs"
| "nums (c # cs) = nums cs"

text \<open>The mean of the values that are present; missing when none is.\<close>

definition nanmean :: "cell list \<Rightarrow> cell" where
  "nanmean vs =
     (if nums vs = [] then NaN else Num (sum_list (nums vs) / of_nat (length (nums vs))))"

text \<open>
  \<^verbatim>\<open>df.groupby(df.columns, axis=1).mean()\<close>: one column per distinct label, the labels sorted,
  each the row-wise mean of the columns of that label. A string column has no mean.
\<close>

definition groupby_columns_mean :: "dataframe \<Rightarrow> error + dataframe" where
  "groupby_columns_mean df =
     (if list_ex (\<lambda>nc. list_ex is_str (snd nc)) (cols df) then Inl TypeError
      else Inr (df\<lparr>cols :=
        map (\<lambda>key. (key, map (\<lambda>i. nanmean (map (\<lambda>nc. snd nc ! i)
                                         (filter (\<lambda>nc. fst nc = key) (cols df))))
                          [0..<nrows df]))
            (sort (remdups (columns df)))\<rparr>))"

text \<open>\<^verbatim>\<open>df.join(other)\<close> on the same row index, the labels of the two disjoint.\<close>

definition join :: "dataframe \<Rightarrow> dataframe \<Rightarrow> error + dataframe" where
  "join df other =
     (if list_ex (\<lambda>l. l \<in> set (columns df)) (columns other) then Inl ValueError
      else Inr (df\<lparr>cols := cols df @ cols other\<rparr>))"

definition remove_duplicate_columns :: "dataframe \<Rightarrow> error + dataframe" where
  "remove_duplicate_columns expression_df =
     (let duplicated_cols = duplicated_labels [] (columns expression_df) in
      case select_columns expression_df duplicated_cols of Inl e \<Rightarrow> Inl e
      | Inr expression_df_duplicated \<Rightarrow>
      (case groupby_columns_mean expression_df_duplicated of Inl e \<Rightarrow> Inl e
       | Inr merged \<Rightarrow>
       (case drop_columns expression_df duplicated_cols of Inl e \<Rightarrow> Inl e
        | Inr kept \<Rightarrow> join kept merged)))"

text \<open>The row-wise mean of the columns of one label, each column taken once.\<close>

definition merged_column :: "dataframe \<Rightarrow> string \<Rightarrow> cell list" where
  "merged_column df key =
     map (\<lambda>i. nanmean (map (\<lambda>nc. snd nc ! i) (filter (\<lambda>nc. fst nc = key) (cols df))))
         [0..<nrows df]"

text \<open>The collision of the specification: two columns \<^verbatim>\<open>A\<close> beside a column \<^verbatim>\<open>B\<close>.\<close>

definition collision_table :: dataframe where
  "collision_table =
     \<lparr>nrows = 4,
      cols = [(''A'', [Num 1, NaN, Num 2, NaN]),
              (''B'', [Str ''w'', Str ''x'', Str ''y'', Str ''z'']),
              (''A'', [NaN, Num 3, Num 4, NaN])]\<rparr>"

section \<open>Marker filter: \<^verbatim>\<open>collect_markers\<close>, \<^verbatim>\<open>drop_markers\<close>\<close>

definition collect_markers :: "dataframe \<Rightarrow> string list" where
  "collect_markers expression_df =
     map (\<lambda>col. str_replace '': Cell: Mean'' [] col)
         (filter (\<lambda>col. str_contains col ''Cell: Mean'') (columns expression_df))"

definition drop_markers :: "dataframe \<Rightarrow> string list \<Rightarrow> string list \<Rightarrow> error + dataframe" where
  "drop_markers expression_df markers excluded_markers =
     (let markers' = map (\<lambda>s. s @ '': '') (filter (\<lambda>s. s \<notin> set excluded_markers) markers);
          measurement_columns =
            filter (\<lambda>col. list_ex (str_contains col) markers') (columns expression_df)
      in select_columns expression_df measurement_columns)"

text \<open>The test of \<^verbatim>\<open>drop_markers\<close> on one label, for the statements below.\<close>

definition kept_by :: "string list \<Rightarrow> string list \<Rightarrow> string \<Rightarrow> bool" where
  "kept_by markers excluded col =
     list_ex (str_contains col) (map (\<lambda>s. s @ '': '') (filter (\<lambda>s. s \<notin> set excluded) markers))"

section \<open>Compartment Imputer and the compartment and statistic filters\<close>

text \<open>A \<^verbatim>\<open>for\<close> loop whose body may raise.\<close>

fun for_each :: "('s \<Rightarrow> 'a \<Rightarrow> error + 's) \<Rightarrow> 's \<Rightarrow> 'a list \<Rightarrow> error + 's" where
  "for_each body s [] = Inr s"
| "for_each body s (x # xs) =
     (case body s x of Inl e \<Rightarrow> Inl e | Inr s' \<Rightarrow> for_each body s' xs)"

text \<open>
  The body shared by \<^verbatim>\<open>replace_cytoplasm_with_membrane\<close> and \<^verbatim>\<open>use_cell_measurement\<close>: a column
  with a missing cell whose label contains \<open>old\<close> takes, in its missing rows, the cells of the
  column whose label has the first \<open>old\<close> replaced by \<open>new\<close>.
\<close>

definition impute_column :: "string \<Rightarrow> string \<Rightarrow> dataframe \<Rightarrow> string \<Rightarrow> error + dataframe" where
  "impute_column old new expression_df col =
     (case get_column expression_df col of Inl e \<Rightarrow> Inl e | Inr values \<Rightarrow>
      if list_ex (\<lambda>c. c = NaN) values then
        if str_contains col old then
          (case get_column expression_df (str_replace_first old new col) of Inl e \<Rightarrow> Inl e
           | Inr source \<Rightarrow> Inr (set_column expression_df col (fillna values source)))
        else Inr expression_df
      else Inr expression_df)"

definition replace_cytoplasm_with_membrane :: "dataframe \<Rightarrow> error + dataframe" where
  "replace_cytoplasm_with_membrane expression_df =
     for_each (impute_column ''Cytoplasm'' ''Membrane'') expression_df (columns expression_df)"

definition use_cell_measurement :: "dataframe \<Rightarrow> error + dataframe" where
  "use_cell_measurement expression_df =
     for_each (impute_column ''Nucleus'' ''Cell'') expression_df (columns expression_df)"

definition remove_unwanted_compartments :: "dataframe \<Rightarrow> string list \<Rightarrow> error + dataframe" where
  "remove_unwanted_compartments expression_df unwanted_compartments =
     drop_columns expression_df
       (filter (\<lambda>col. list_ex (str_contains col) unwanted_compartments) (columns expression_df))"

definition remove_statistics :: "dataframe \<Rightarrow> string list \<Rightarrow> error + dataframe" where
  "remove_statistics expression_df unwanted_stats =
     drop_columns expression_df
       (filter (\<lambda>col. list_ex (str_contains col) unwanted_stats) (columns expression_df))"

section \<open>Label Processor\<close>

text \<open>\<^verbatim>\<open>Series.unique()\<close>: the distinct values in order of first appearance.\<close>

definition unique :: "'a list \<Rightarrow> 'a list" where
  "unique xs = rev (remdups (rev xs))"

fun strs :: "cell list \<Rightarrow> string list" where
  "strs [] = []"
| "strs (Str x # cs) = x # strs cs"
| "strs (c # cs) = strs cs"

text \<open>
  \<^verbatim>\<open>series.str.replace(old, new)\<close>. A column with a string in it has dtype \<^verbatim>\<open>object\<close>: its strings
  are rewritten and every other cell comes out missing. A column without any string is numeric
  and has no \<^verbatim>\<open>.str\<close> accessor.
\<close>

definition series_str_replace :: "cell list \<Rightarrow> string \<Rightarrow> string \<Rightarrow> error + cell list" where
  "series_str_replace s old new =
     (if list_ex is_str s
      then Inr (map (\<lambda>c. case c of Str x \<Rightarrow> Str (str_replace old new x) | _ \<Rightarrow> NaN) s)
      else Inl AttributeError)"

text \<open>\<^verbatim>\<open>series.replace(to_replace, value)\<close> with a list of strings and one string.\<close>

definition series_replace :: "cell list \<Rightarrow> string list \<Rightarrow> string \<Rightarrow> cell list" where
  "series_replace s to_replace v =
     map (\<lambda>c. case c of Str x \<Rightarrow> if x \<in> set to_replace then Str v else c | _ \<Rightarrow> c) s"

definition column_str_replace :: "dataframe \<Rightarrow> string \<Rightarrow> string \<Rightarrow> string \<Rightarrow> error + dataframe" where
  "column_str_replace df col old new =
     (case get_column df col of Inl e \<Rightarrow> Inl e | Inr s \<Rightarrow>
      (case series_str_replace s old new of Inl e \<Rightarrow> Inl e
       | Inr s' \<Rightarrow> Inr (set_column df col s')))"

definition column_replace :: "dataframe \<Rightarrow> string \<Rightarrow> string list \<Rightarrow> string \<Rightarrow> error + dataframe" where
  "column_replace df col to_replace v =
     (case get_column df col of Inl e \<Rightarrow> Inl e
      | Inr s \<Rightarrow> Inr (set_column df col (series_replace s to_replace v)))"

text \<open>\<^verbatim>\<open>try: ... except KeyError: pass\<close> around one in-place update of the table.\<close>

definition except_KeyError :: "dataframe \<Rightarrow> error + dataframe \<Rightarrow> error + dataframe" where
  "except_KeyError df r = (case r of Inl KeyError \<Rightarrow> Inr df | _ \<Rightarrow> r)"

text \<open>
  \<^verbatim>\<open>sorted(series.unique())\<close> where the column holds a string: a missing value beside a string
  cannot be compared with it.
\<close>

definition sorted_unique :: "cell list \<Rightarrow> error + string list" where
  "sorted_unique s = (if list_all is_str s then Inr (sort (unique (strs s))) else Inl TypeError)"

definition preprocess_celltypecolumn ::
  "dataframe \<Rightarrow> string list \<Rightarrow> string \<Rightarrow>
     error + (dataframe \<times> string list option \<times> string list option)" where
  "preprocess_celltypecolumn expression_df cell_types_to_remove change_to =
     and_then (get_column expression_df ''Class'') (\<lambda>class0.
     if list_ex (\<lambda>c. c \<noteq> NaN) class0 then
       and_then (column_str_replace expression_df ''Class'' ''Edited: '' []) (\<lambda>df1.
       and_then (except_KeyError df1 (column_str_replace df1 ''Name'' ''Edited: '' [])) (\<lambda>df2.
       and_then (column_str_replace df2 ''Class'' ''Immune cells: '' []) (\<lambda>df3.
       and_then (except_KeyError df3 (column_str_replace df3 ''Name'' ''Immune cells: '' []))
         (\<lambda>df4.
       and_then (get_column df4 ''Class'') (\<lambda>class4.
       and_then (sorted_unique class4) (\<lambda>found_cell_types.
       and_then (column_replace df4 ''Class'' cell_types_to_remove change_to) (\<lambda>df5.
       and_then (except_KeyError df5 (column_replace df5 ''Name'' cell_types_to_remove change_to))
         (\<lambda>df6.
       and_then (get_column df6 ''Class'') (\<lambda>class6.
       and_then (sorted_unique class6) (\<lambda>cell_types.
       Inr (df6, Some found_cell_types, Some cell_types)))))))))))
     else Inr (expression_df, None, None))"

text \<open>A table whose \<^verbatim>\<open>Class\<close> column has \<open>n\<close> rows.\<close>

definition class_rows :: "dataframe \<Rightarrow> nat \<Rightarrow> bool" where
  "class_rows df n = (case get_column df ''Class'' of Inl e \<Rightarrow> False | Inr c \<Rightarrow> length c = n)"

text \<open>The two dict comprehensions over \<^verbatim>\<open>range(len(cell_types))\<close>; a later index overwrites.\<close>

definition create_encoder_decoder :: "string list \<Rightarrow> (string \<rightharpoonup> nat) \<times> (nat \<rightharpoonup> string)" where
  "create_encoder_decoder cell_types =
     (fold (\<lambda>i encoder. encoder(cell_types ! i \<mapsto> i)) [0..<length cell_types] Map.empty,
      fold (\<lambda>i decoder. decoder(i \<mapsto> cell_types ! i)) [0..<length cell_types] Map.empty)"

text \<open>
  \<^verbatim>\<open>labels.replace({"Name": encoder})\<close> on one cell of a column labelled \<^verbatim>\<open>Name\<close>. With a dict as
  encoder a cell that is a key of it becomes its index. With \<^verbatim>\<open>encoder = None\<close> pandas reads the
  argument as "replace the value \<^verbatim>\<open>Name\<close> by \<^verbatim>\<open>None\<close>": every other cell stands as it is.
\<close>

definition encode_label :: "(string \<rightharpoonup> nat) option \<Rightarrow> cell \<Rightarrow> cell" where
  "encode_label encoder c =
     (case encoder of
        Some enc \<Rightarrow>
          (case c of
             Str x \<Rightarrow> (case enc x of Some i \<Rightarrow> Num (of_nat i) | None \<Rightarrow> c)
           | _ \<Rightarrow> c)
      | None \<Rightarrow> (if c = Str ''Name'' then NaN else c))"

text \<open>
  \<^verbatim>\<open>save_encoded_labels\<close>: the table \<^verbatim>\<open>expression_df.loc[:, ["Name"]]\<close> (every column labelled
  \<^verbatim>\<open>Name\<close>; \<^verbatim>\<open>KeyError\<close> when there is none), its cells replaced as above, is the label file.
\<close>

definition save_encoded_labels :: "dataframe \<Rightarrow> (string \<rightharpoonup> nat) option \<Rightarrow> error + dataframe" where
  "save_encoded_labels expression_df encoder =
     (case select_columns expression_df [''Name''] of
        Inl e \<Rightarrow> Inl e
      | Inr labels \<Rightarrow>
          Inr (labels\<lparr>cols := map (\<lambda>nc. (fst nc, map (encode_label encoder) (snd nc)))
                                 (cols labels)\<rparr>))"

subsection \<open>Binary mode: \<^verbatim>\<open>binarize_and_save_fm\<close>\<close>

record fm_result =
  fm_encoder :: "string \<rightharpoonup> nat"
  fm_decoder :: "nat \<rightharpoonup> string"
  binarized_labels_csv :: "nat list"

text \<open>
  On a column of strings: the two dicts from the first two sorted labels (\<^verbatim>\<open>IndexError\<close> with
  fewer than two), then \<^verbatim>\<open>int("+" in x)\<close> for every row. On a column with a cell that is not a
  string the source fails as well: with \<^verbatim>\<open>IndexError\<close> when there are fewer than two distinct
  values, otherwise with \<^verbatim>\<open>TypeError\<close>, in \<^verbatim>\<open>sorted\<close> or in \<^verbatim>\<open>"+" in x\<close>.
\<close>

definition binarize_and_save_fm :: "dataframe \<Rightarrow> error + fm_result" where
  "binarize_and_save_fm expression_df =
     (case get_column expression_df ''Classification'' of Inl e \<Rightarrow> Inl e | Inr binarized \<Rightarrow>
      if list_all is_str binarized then
        (case sort (unique (strs binarized)) of
           l0 # l1 # rest \<Rightarrow>
             Inr \<lparr>fm_encoder = [l0 \<mapsto> 1, l1 \<mapsto> 0],
                  fm_decoder = [1 \<mapsto> l0, 0 \<mapsto> l1],
                  binarized_labels_csv =
                    map (\<lambda>x. if str_contains x ''+'' then 1 else 0) (strs binarized)\<rparr>
         | _ \<Rightarrow> Inl IndexError)
      else if length (unique binarized) < 2 then Inl IndexError
      else Inl TypeError)"

section \<open>The pipeline: \<^verbatim>\<open>preprocess_training_data\<close>\<close>

definition remove_dots :: "dataframe \<Rightarrow> dataframe" where
  "remove_dots expression_df = rename_columns remove_dots_name expression_df"

text \<open>
  \<^verbatim>\<open>generate_warnings\<close>: the labels that collide once \<^verbatim>\<open>Target:\<close> is removed and underscores are
  spaces, each with the original labels behind it. The source builds a table from this dict of
  lists, which pandas refuses when the lists differ in length. The text made of it is left out.
\<close>

definition generate_warnings :: "dataframe \<Rightarrow> error + (string \<times> string list) list" where
  "generate_warnings expression_df =
     (let column_names_orig = columns expression_df;
          column_names =
            map (\<lambda>c. str_replace ''_'' '' '' (str_replace ''Target:'' [] c)) column_names_orig;
          duplicated_column_names = duplicated_labels [] column_names;
          duplicated_columns =
            map (\<lambda>name. (name, map fst (filter (\<lambda>p. snd p = name)
                                             (zip column_names_orig column_names))))
                (unique duplicated_column_names)
      in if duplicated_column_names = [] then Inr []
         else if list_all (\<lambda>nl. length (snd nl) = length (snd (hd duplicated_columns)))
                          duplicated_columns
         then Inr duplicated_columns
         else Inl ValueError)"

definition save_image_coordinate_columns :: "dataframe \<Rightarrow> string list \<Rightarrow> error + dataframe" where
  "save_image_coordinate_columns expression_df additional_meta_data =
     select_columns expression_df
       ([''Image'', um_col ''X'', um_col ''Y''] @ additional_meta_data)"

text \<open>The parameters of a run that reach the table.\<close>

record config =
  cell_types_to_remove :: "string list"
  change_to :: string
  additional_meta_data_to_keep :: "string list"
  unwanted_markers :: "string list"
  unwanted_compartments :: "string list"
  unwanted_statistics :: "string list"

text \<open>The files of a run; \<open>None\<close> is a file that has not been written.\<close>

record outputs =
  decoder_json :: "(nat \<rightharpoonup> string) option"
  cell_type_labels_csv :: "dataframe option"
  images_csv :: "dataframe option"
  preprocessed_input_data :: "dataframe option"

text \<open>The values behind the tables of the report.\<close>

record report =
  warnings :: "(string \<times> string list) list"
  found_cell_types_table :: "string list option"
  cell_types_table :: "string list option"
  encoding_table :: "string list option"
  markers_table :: "string list"
  after_drop_markers_table :: "string list"
  null_columns_table :: "string list"

text \<open>One stage of a run: when it raises, the run ends with the files written so far.\<close>

definition stage ::
  "outputs \<Rightarrow> error + 'a \<Rightarrow> ('a \<Rightarrow> outputs \<times> (error + 'b)) \<Rightarrow> outputs \<times> (error + 'b)" where
  "stage out r f = (case r of Inl e \<Rightarrow> (out, Inl e) | Inr v \<Rightarrow> f v)"

text \<open>
  Lines 612 to 650 of \<^verbatim>\<open>preprocess_training_data\<close>, from the coordinate resolver to the feature
  table. \<^verbatim>\<open>value_counts\<close> reads the \<^verbatim>\<open>Class\<close> column; a Series in place of the table has no
  two-dimensional \<^verbatim>\<open>.loc\<close>.
\<close>

definition feature_stages ::
  "config \<Rightarrow> dataframe \<Rightarrow> outputs \<Rightarrow> report \<Rightarrow> outputs \<times> (error + report)" where
  "feature_stages cfg expression_df out rep =
     stage out (convert_pixels_to_micrometre expression_df (3906 / 10000)) (\<lambda>converted.
     stage out (case converted of Series s \<Rightarrow> Inl IndexingError | Frame df \<Rightarrow> Inr df) (\<lambda>df1.
     stage out (save_image_coordinate_columns df1 (additional_meta_data_to_keep cfg))
       (\<lambda>image_coord_df.
     let out1 = out\<lparr>images_csv := Some image_coord_df\<rparr> in
     stage out1 (get_column df1 ''Class'') (\<lambda>class_counts.
     stage out1 (remove_duplicate_columns (remove_prefixes_underscores df1)) (\<lambda>df3.
     let markers = collect_markers df3 in
     stage out1 (drop_markers df3 markers (unwanted_markers cfg)) (\<lambda>df4.
     let after_drop_markers = collect_markers df4 in
     stage out1 (replace_cytoplasm_with_membrane df4) (\<lambda>df5.
     stage out1 (use_cell_measurement df5) (\<lambda>df6.
     stage out1 (remove_unwanted_compartments df6 (unwanted_compartments cfg)) (\<lambda>df7.
     stage out1 (remove_statistics df7 (unwanted_statistics cfg)) (\<lambda>df8.
       (out1\<lparr>preprocessed_input_data := Some df8\<rparr>,
        Inr (rep\<lparr>markers_table := markers,
                 after_drop_markers_table := after_drop_markers,
                 null_columns_table :=
                   map fst (filter (\<lambda>nc. list_ex (\<lambda>c. c = NaN) (snd nc)) (cols df8))\<rparr>))
     ))))))))))"

text \<open>
  The whole run on the table read from the input file: lines 586 to 610, then the stages above.
  \<^verbatim>\<open>if cell_types:\<close> holds for a list that is there and not empty.
\<close>

definition preprocess_training_data :: "config \<Rightarrow> dataframe \<Rightarrow> outputs \<times> (error + report)" where
  "preprocess_training_data cfg input =
     (let out0 = \<lparr>decoder_json = None, cell_type_labels_csv = None,
                  images_csv = None, preprocessed_input_data = None\<rparr>;
          expression_df0 = remove_dots input in
      stage out0 (generate_warnings expression_df0) (\<lambda>warnings_found.
      stage out0 (preprocess_celltypecolumn expression_df0 (cell_types_to_remove cfg)
                    (change_to cfg)) (\<lambda>(expression_df, found_cell_types, cell_types).
      let coded = (case cell_types of
                     Some (c # cs) \<Rightarrow> Some (create_encoder_decoder (c # cs))
                   | _ \<Rightarrow> None);
          encoder = map_option fst coded;
          out1 = out0\<lparr>decoder_json := map_option snd coded\<rparr> in
      stage out1 (save_encoded_labels expression_df encoder) (\<lambda>labels.
        feature_stages cfg expression_df (out1\<lparr>cell_type_labels_csv := Some labels\<rparr>)
          \<lparr>warnings = warnings_found,
           found_cell_types_table = found_cell_types,
           cell_types_table = cell_types,
           encoding_table = (case coded of None \<Rightarrow> None | Some c \<Rightarrow> cell_types),
           markers_table = [], after_drop_markers_table = [], null_columns_table = []\<rparr>))))"


definition run_config :: config where
  "run_config =
     \<lparr>cell_types_to_remove = [''Unknown''], change_to = ''Other'',
      additional_meta_data_to_keep = [], unwanted_markers = [],
      unwanted_compartments = [], unwanted_statistics = []\<rparr>"

text \<open>
  Two more tables whose \<^verbatim>\<open>Class\<close> column is entirely missing: one whose labels collide in a group
  of two and a group of three once \<^verbatim>\<open>Target:\<close> is removed and underscores are spaces, and one
  without a \<^verbatim>\<open>Name\<close> column.
\<close>

definition uneven_collision_table :: dataframe where
  "uneven_collision_table =
     \<lparr>nrows = 1,
      cols = [(''Class'', [NaN]),
              (''Name'', [Str ''T cells'']),
              (''CD3_Cell'', [Num 1]), (''CD3 Cell'', [Num 2]),
              (''CD8_Cell'', [Num 3]), (''CD8 Cell'', [Num 4]), (''Target:CD8 Cell'', [Num 5])]\<rparr>"

definition unnamed_table :: dataframe where
  "unnamed_table =
     \<lparr>nrows = 2,
      cols = [(''Image'', [Str ''roi1'', Str ''roi1'']),
              (''Class'', [NaN, NaN]),
              (''Centroid.X.px'', [Num 100, Num 200]),
              (''Centroid.Y.px'', [Num 10, Num 20]),
              (''CD20..Cell..Mean'', [Num 5, Num 6])]\<rparr>"

text \<open>
  The run of the specification's end-to-end scenario, before and after the label processor with
  exclusion list \<^verbatim>\<open>["Unknown"]\<close> and replacement \<^verbatim>\<open>Other\<close>; and a binary-mode column.
\<close>

definition label_table :: dataframe where
  "label_table =
     \<lparr>nrows = 2,
      cols = [(''Image'', [Str ''roi1'', Str ''roi1'']),
              (''Class'', [Str ''Unknown'', Str ''Edited: B cells'']),
              (''Name'', [Str ''Unknown'', Str ''B cells'']),
              (um_col ''X'', [Num 1, Num 2]),
              (um_col ''Y'', [Num 3, Num 4]),
              (''CD20: Cell: Mean'', [Num 5, Num 6]),
              (''CD20: Nucleus: Mean'', [NaN, Num 7])]\<rparr>"

definition label_table_cleaned :: dataframe where
  "label_table_cleaned =
     \<lparr>nrows = 2,
      cols = [(''Image'', [Str ''roi1'', Str ''roi1'']),
              (''Class'', [Str ''Other'', Str ''B cells'']),
              (''Name'', [Str ''Other'', Str ''B cells'']),
              (um_col ''X'', [Num 1, Num 2]),
              (um_col ''Y'', [Num 3, Num 4]),
              (''CD20: Cell: Mean'', [Num 5, Num 6]),
              (''CD20: Nucleus: Mean'', [NaN, Num 7])]\<rparr>"

definition fm_table :: dataframe where
  "fm_table = \<lparr>nrows = 3, cols = [(''Classification'', [Str ''B+'', Str ''A-'', Str ''B+''])]\<rparr>"

text \<open>A table with the measurements of two markers, one a prefix of the other.\<close>

definition cd_table :: dataframe where
  "cd_table =
     \<lparr>nrows = 2,
      cols = [(''Image'', [Str ''roi1'', Str ''roi1'']),
              (''Class'', [Str ''T cells'', Str ''B cells'']),
              (''Name'', [Str ''T cells'', Str ''B cells'']),
              (um_col ''X'', [Num 1, Num 2]),
              (um_col ''Y'', [Num 3, Num 4]),
              (''CD4: Cell: Mean'', [Num 5, Num 6]),
              (''CD4: Nucleus: Mean'', [NaN, Num 7]),
              (''CD45: Cell: Mean'', [Num 8, Num 9]),
              (''CD45: Nucleus: Mean'', [Num 10, Num 11])]\<rparr>"

chapter \<open>Properties\<close>

section \<open>Properties of the Coordinate Unit Resolver\<close>

lemma axis_names [simp]:
  "um_col a \<noteq> px_col b"
  "px_col a \<noteq> um_col b"
  "um_col a = um_col b \<longleftrightarrow> a = b"
  "px_col a = px_col b \<longleftrightarrow> a = b"
  by (auto simp: um_col_def px_col_def micro_def)

lemma get_column_Inr_iff:
  "get_column df n = Inr c \<longleftrightarrow> map_of (cols df) n = Some c"
  by (simp add: get_column_def split: option.splits)

lemma in_columns_iff:
  "n \<in> set (columns df) \<longleftrightarrow> map_of (cols df) n \<noteq> None"
  by (simp add: columns_def map_of_eq_None_iff)

lemma get_column_in_columns:
  "get_column df n = Inr c \<Longrightarrow> n \<in> set (columns df)"
  by (simp add: get_column_Inr_iff in_columns_iff)

lemma columns_set_column_present:
  "n \<in> set (columns df) \<Longrightarrow> columns (set_column df n v) = columns df"
  by (simp add: set_column_def columns_def comp_def)

lemma map_of_filter_other:
  "n \<noteq> m \<Longrightarrow> map_of (filter (\<lambda>nc. fst nc \<noteq> m) xs) n = map_of xs n"
  by (induction xs) auto

lemma map_of_filter_self:
  "map_of (filter (\<lambda>nc. fst nc \<noteq> m) xs) m = None"
  by (induction xs) auto

lemma resolve_dim_pixel_only:
  assumes "um_col a \<notin> set (columns df)" and "get_column df (px_col a) = Inr px"
  shows "resolve_dim k (Frame df) a =
     (if list_ex is_str px then Inl TypeError
      else Inr (Frame (df\<lparr>cols := filter (\<lambda>nc. fst nc \<noteq> px_col a) (cols df)
                                  @ [(um_col a, map (scale_cell k) px)]\<rparr>)))"
proof -
  have px_in: "px_col a \<in> set (columns df)"
    using assms(2) by (rule get_column_in_columns)
  have cols_set: "columns (set_column df (um_col a) v) = columns df @ [um_col a]" for v
    using assms(1) by (simp add: set_column_def columns_def)
  show ?thesis
    using assms px_in
    by (simp add: mul_scalar_def drop_columns_def cols_set)
       (simp add: set_column_def columns_def)
qed

lemma resolve_dim_micron_only:
  "um_col a \<in> set (columns df) \<Longrightarrow> px_col a \<notin> set (columns df) \<Longrightarrow>
   resolve_dim k (Frame df) a = Inr (Frame df)"
  by simp

lemma resolve_dim_both:
  "um_col a \<in> set (columns df) \<Longrightarrow> px_col a \<in> set (columns df) \<Longrightarrow>
   \<exists>e. resolve_dim k (Frame df) a = Inl e"
  by (simp add: series_drop_axis1_def split: sum.splits)

lemma resolve_dim_neither:
  "um_col a \<notin> set (columns df) \<Longrightarrow> px_col a \<notin> set (columns df) \<Longrightarrow>
   resolve_dim k (Frame df) a = Inl RuntimeError"
  by simp

lemma resolve_dim_never_series:
  "resolve_dim k obj a \<noteq> Inr (Series s)"
  by (cases obj) (auto simp: series_drop_axis1_def split: sum.splits)

lemma resolve_dim_other_columns:
  assumes "resolve_dim k (Frame df) a = Inr (Frame df')" and "n \<noteq> um_col a" and "n \<noteq> px_col a"
  shows "map_of (cols df') n = map_of (cols df) n"
proof -
  consider (both) "um_col a \<in> set (columns df)" "px_col a \<in> set (columns df)"
    | (px) "um_col a \<notin> set (columns df)" "px_col a \<in> set (columns df)"
    | (um) "um_col a \<in> set (columns df)" "px_col a \<notin> set (columns df)"
    | (none) "um_col a \<notin> set (columns df)" "px_col a \<notin> set (columns df)"
    by blast
  then show ?thesis
  proof cases
    case both
    then show ?thesis using resolve_dim_both[OF both, of k] assms(1) by auto
  next
    case px
    then obtain c where c: "get_column df (px_col a) = Inr c"
      by (auto simp: in_columns_iff get_column_Inr_iff)
    have "df' = df\<lparr>cols := filter (\<lambda>nc. fst nc \<noteq> px_col a) (cols df)
                                  @ [(um_col a, map (scale_cell k) c)]\<rparr>"
      using assms(1) unfolding resolve_dim_pixel_only[OF px(1) c] by (simp split: if_splits)
    then show ?thesis
      using assms(2,3) by (simp add: map_of_filter_other map_add_def split: option.splits)
  next
    case um
    then show ?thesis using assms(1) by simp
  next
    case none
    then show ?thesis using assms(1) by simp
  qed
qed


lemma resolve_dim_returns_iff:
  "(\<exists>out. resolve_dim k (Frame df) a = Inr out) \<longleftrightarrow> axis_usable df a"
proof (cases "um_col a \<in> set (columns df)")
  case True
  then show ?thesis
    using resolve_dim_both[of a df k] by (auto simp: axis_usable_def)
next
  case False
  show ?thesis
  proof (cases "get_column df (px_col a)")
    case (Inl e)
    then have "px_col a \<notin> set (columns df)"
      by (auto simp: in_columns_iff get_column_def split: option.splits)
    then show ?thesis using False Inl by (simp add: axis_usable_def)
  next
    case (Inr px)
    show ?thesis
      using False Inr resolve_dim_pixel_only[OF False Inr, of k]
      by (simp add: axis_usable_def)
  qed
qed

lemma resolve_dim_pixel_only_result:
  assumes "um_col a \<notin> set (columns df)" and "get_column df (px_col a) = Inr px"
    and "resolve_dim k (Frame df) a = Inr out"
  shows "\<exists>df'. out = Frame df' \<and> get_column df' (um_col a) = Inr (map (scale_cell k) px)
           \<and> px_col a \<notin> set (columns df')"
proof -
  let ?df' = "df\<lparr>cols := filter (\<lambda>nc. fst nc \<noteq> px_col a) (cols df)
                                  @ [(um_col a, map (scale_cell k) px)]\<rparr>"
  have out: "out = Frame ?df'"
    using assms(3) unfolding resolve_dim_pixel_only[OF assms(1,2)] by (simp split: if_splits)
  have "map_of (cols df) (um_col a) = None"
    using assms(1) by (simp add: in_columns_iff)
  then have um: "get_column ?df' (um_col a) = Inr (map (scale_cell k) px)"
    by (simp add: get_column_Inr_iff map_add_def map_of_filter_other)
  have "px_col a \<notin> set (columns ?df')"
    by (simp add: in_columns_iff map_add_def map_of_filter_self)
  with out um show ?thesis by blast
qed

lemma resolve_dim_frame:
  assumes "resolve_dim k obj a = Inr out"
  obtains df' where "out = Frame df'"
  using assms resolve_dim_never_series[of k obj a] by (cases out) auto

declare resolve_dim.simps [simp del]

lemma convert_Inr_iff:
  "convert_pixels_to_micrometre df p = Inr out \<longleftrightarrow>
     (\<exists>after_x. resolve_dim (3906 / 10000) (Frame df) ''X'' = Inr after_x
        \<and> resolve_dim (3906 / 10000) after_x ''Y'' = Inr out)"
  unfolding convert_pixels_to_micrometre_def Let_def
  by (cases "resolve_dim (3906 / 10000) (Frame df) ''X''") simp_all


lemma convert_returns_iff:
  "(\<exists>df'. convert_pixels_to_micrometre df pixel_size = Inr (Frame df'))
     \<longleftrightarrow> axis_usable df ''X'' \<and> axis_usable df ''Y''"
proof
    assume "\<exists>df'. convert_pixels_to_micrometre df pixel_size = Inr (Frame df')"
    then obtain df' after_x where x: "resolve_dim (3906 / 10000) (Frame df) ''X'' = Inr after_x"
      and y: "resolve_dim (3906 / 10000) after_x ''Y'' = Inr (Frame df')"
      unfolding convert_Inr_iff by blast
    from x obtain dfx where dfx: "after_x = Frame dfx" by (rule resolve_dim_frame)
    have ux: "axis_usable df ''X''" using x resolve_dim_returns_iff by blast
    have uy: "axis_usable dfx ''Y''" using y dfx resolve_dim_returns_iff by blast
    have "map_of (cols dfx) (um_col ''Y'') = map_of (cols df) (um_col ''Y'')"
      "map_of (cols dfx) (px_col ''Y'') = map_of (cols df) (px_col ''Y'')"
      using resolve_dim_other_columns[of _ df "''X''" dfx] x dfx by simp_all
    then have "axis_usable dfx ''Y'' = axis_usable df ''Y''"
      by (simp add: axis_usable_def in_columns_iff get_column_def)
    with ux uy show "axis_usable df ''X'' \<and> axis_usable df ''Y''" by simp
  next
    assume u: "axis_usable df ''X'' \<and> axis_usable df ''Y''"
    then obtain after_x where x: "resolve_dim (3906 / 10000) (Frame df) ''X'' = Inr after_x"
      using resolve_dim_returns_iff by blast
    from x obtain dfx where dfx: "after_x = Frame dfx" by (rule resolve_dim_frame)
    have "map_of (cols dfx) (um_col ''Y'') = map_of (cols df) (um_col ''Y'')"
      "map_of (cols dfx) (px_col ''Y'') = map_of (cols df) (px_col ''Y'')"
      using resolve_dim_other_columns[of _ df "''X''" dfx] x dfx by simp_all
    then have "axis_usable dfx ''Y'' = axis_usable df ''Y''"
      by (simp add: axis_usable_def in_columns_iff get_column_def)
    with u obtain out where y: "resolve_dim (3906 / 10000) (Frame dfx) ''Y'' = Inr out"
      using resolve_dim_returns_iff by blast
    from y obtain dfy where "out = Frame dfy" by (rule resolve_dim_frame)
    with x y dfx show "\<exists>df'. convert_pixels_to_micrometre df pixel_size = Inr (Frame df')"
      unfolding convert_Inr_iff by blast
qed

text \<open>
  C1. Where the micron and the pixel column of an axis are both present, the claim has the
  missing micron cells filled, the pixel column kept and every other column untouched. The
  resolver of \<^verbatim>\<open>bin/preprocess_cell_type_classification.py\<close> replaces the whole table by the
  filled micron column and then fails in \<^verbatim>\<open>drop(..., axis=1)\<close> on that Series: on
  \<^const>\<open>both_units_table\<close> it raises. The resolver of \<^verbatim>\<open>scripts/preprocess-training-data.py\<close>
  does on the same table what the claim says.
\<close>

theorem both_units_branch_raises:
  "convert_pixels_to_micrometre both_units_table pixel_size = Inl ValueError
   \<and> convert_pixels_to_micrometre_script both_units_table pixel_size =
       Inr \<lparr>nrows = 2,
            cols = [(''Image'', [Str ''roi1'', Str ''roi1'']),
                    (um_col ''X'', [Num 5, Num (3906 / 100)]),
                    (px_col ''X'', [Num 10, Num 100]),
                    (um_col ''Y'', [Num 1, Num 2])]\<rparr>"
  by (simp add: convert_pixels_to_micrometre_def convert_pixels_to_micrometre_script_def
        resolve_dim.simps resolve_dim_script_def both_units_table_def columns_def
        get_column_def mul_scalar_def fillna_def series_drop_axis1_def fill_rows_def
        set_column_def drop_columns_def um_col_def px_col_def micro_def)

text \<open>The failure does not depend on the table: with both units on an axis no table is returned.\<close>

lemma convert_both_units_never_returns:
  assumes "(um_col ''X'' \<in> set (columns df) \<and> px_col ''X'' \<in> set (columns df))
         \<or> (um_col ''Y'' \<in> set (columns df) \<and> px_col ''Y'' \<in> set (columns df))"
  shows "\<exists>e. convert_pixels_to_micrometre df pixel_size = Inl e"
proof (cases "convert_pixels_to_micrometre df pixel_size")
  case (Inl e)
  then show ?thesis by blast
next
  case (Inr out)
  then obtain after_x where x: "resolve_dim (3906 / 10000) (Frame df) ''X'' = Inr after_x"
    and y: "resolve_dim (3906 / 10000) after_x ''Y'' = Inr out"
    unfolding convert_Inr_iff by blast
  from x obtain dfx where dfx: "after_x = Frame dfx" by (rule resolve_dim_frame)
  from y obtain dfy where "out = Frame dfy" by (rule resolve_dim_frame)
  with Inr have "axis_usable df ''X'' \<and> axis_usable df ''Y''"
    using convert_returns_iff[of df pixel_size] by blast
  with assms show ?thesis by (auto simp: axis_usable_def)
qed

lemma fill_rows_no_missing:
  assumes "\<not> list_ex (\<lambda>c. c = NaN) um" and "length um \<le> length px"
  shows "map (\<lambda>(a, b). if a = NaN then scale_cell k b else a) (zip um px) = um"
  using assms
proof (induction um arbitrary: px)
  case Nil
  then show ?case by simp
next
  case (Cons u um)
  then show ?case by (cases px) auto
qed

lemma set_column_same:
  assumes "distinct (columns df)" and "get_column df n = Inr v"
  shows "set_column df n v = df"
proof -
  have in_cols: "(n, v) \<in> set (cols df)"
    using assms(2) by (auto simp: get_column_Inr_iff dest: map_of_SomeD)
  have "nc = (n, v)" if "nc \<in> set (cols df)" "fst nc = n" for nc
    using that in_cols assms(1)
    by (metis columns_def eq_key_imp_eq_value prod.collapse)
  then have "map (\<lambda>nc. if fst nc = n then (n, v) else nc) (cols df) = cols df"
    by (simp add: map_idI)
  moreover have "n \<in> set (columns df)"
    using assms(2) by (rule get_column_in_columns)
  ultimately show ?thesis by (simp add: set_column_def)
qed

text \<open>
  The resolver of \<^verbatim>\<open>scripts/preprocess-training-data.py\<close> with both units on an axis and a
  numeric pixel column: the missing micron cells are filled, and nothing else changes.
\<close>

lemma script_fills_missing_microns:
  assumes dist: "distinct (columns df)" and wf: "wf_frame df"
    and um: "get_column df (um_col a) = Inr um"
    and px: "get_column df (px_col a) = Inr px"
    and numeric: "\<not> list_ex is_str px"
  shows "resolve_dim_script k df a =
     Inr (df\<lparr>cols := map (\<lambda>nc. if fst nc = um_col a
                                then (um_col a, map (\<lambda>(u, p). if u = NaN then scale_cell k p else u)
                                                    (zip um px))
                                else nc) (cols df)\<rparr>)"
proof -
  let ?filled = "map (\<lambda>(u, p). if u = NaN then scale_cell k p else u) (zip um px)"
  have um_in: "um_col a \<in> set (columns df)" using um by (rule get_column_in_columns)
  have px_in: "px_col a \<in> set (columns df)" using px by (rule get_column_in_columns)
  have fill: "fill_rows um px k = Inr ?filled"
    using numeric by (auto simp: fill_rows_def list_ex_iff dest: set_zip_rightD)
  have set: "set_column df (um_col a) ?filled =
      df\<lparr>cols := map (\<lambda>nc. if fst nc = um_col a then (um_col a, ?filled) else nc) (cols df)\<rparr>"
    using um_in by (simp add: set_column_def)
  have px_in': "px_col a \<in> set (columns (set_column df (um_col a) ?filled))"
    using px_in um_in by (simp add: columns_set_column_present)
  show ?thesis
  proof (cases "list_ex (\<lambda>c. c = NaN) um")
    case True
    then show ?thesis
      using um px fill set px_in'
      by (simp add: resolve_dim_script_def drop_columns_def)
  next
    case False
    have "(um_col a, um) \<in> set (cols df)" "(px_col a, px) \<in> set (cols df)"
      using um px by (auto simp: get_column_Inr_iff dest: map_of_SomeD)
    moreover have "length (snd nc) = nrows df" if "nc \<in> set (cols df)" for nc
      using wf that by (simp add: wf_frame_def list_all_iff)
    ultimately have "length um = length px"
      by fastforce
    then have "?filled = um"
      using fill_rows_no_missing[OF False, of px k] by simp
    then have "set_column df (um_col a) ?filled = df"
      using set_column_same[OF dist um] by simp
    with set False um show ?thesis
      by (simp add: resolve_dim_script_def)
  qed
qed

text \<open>
  C8. On an axis with the pixel column only, every table the resolver returns has the micron
  column of that axis, equal to the pixel column times 0.3906 in every row, and no pixel column
  of that axis; the resolver returns a table exactly when both axes are usable; and a table with
  micron columns only is returned as it is. Column labels are taken distinct, as they are in a
  table read from a file. Numbers are exact: 100 pixels times 0.3906 is 39.06.
\<close>

theorem pixel_only_axis_converted:
  assumes "distinct (columns df)"
  shows "(\<forall>axis px out.
            (axis = ''X'' \<or> axis = ''Y'') \<and> um_col axis \<notin> set (columns df)
            \<and> get_column df (px_col axis) = Inr px
            \<and> convert_pixels_to_micrometre df pixel_size = Inr out \<longrightarrow>
            (\<exists>df'. out = Frame df'
               \<and> get_column df' (um_col axis) = Inr (map (scale_cell (3906 / 10000)) px)
               \<and> px_col axis \<notin> set (columns df')))
       \<and> ((\<exists>df'. convert_pixels_to_micrometre df pixel_size = Inr (Frame df'))
            \<longleftrightarrow> axis_usable df ''X'' \<and> axis_usable df ''Y'')
       \<and> (um_col ''X'' \<in> set (columns df) \<and> px_col ''X'' \<notin> set (columns df)
            \<and> um_col ''Y'' \<in> set (columns df) \<and> px_col ''Y'' \<notin> set (columns df) \<longrightarrow>
            convert_pixels_to_micrometre df pixel_size = Inr (Frame df))"
proof (intro conjI allI impI)
  fix axis px out
  assume h: "(axis = ''X'' \<or> axis = ''Y'') \<and> um_col axis \<notin> set (columns df)
            \<and> get_column df (px_col axis) = Inr px
            \<and> convert_pixels_to_micrometre df pixel_size = Inr out"
  let ?k = "3906 / 10000 :: rat"
  from h have "convert_pixels_to_micrometre df pixel_size = Inr out" by blast
  then obtain after_x where x: "resolve_dim ?k (Frame df) ''X'' = Inr after_x"
    and y: "resolve_dim ?k after_x ''Y'' = Inr out"
    unfolding convert_Inr_iff by blast
  from x obtain dfx where dfx: "after_x = Frame dfx" by (rule resolve_dim_frame)
  from y obtain dfy where dfy: "out = Frame dfy" by (rule resolve_dim_frame)
  from h consider (X) "axis = ''X''" | (Y) "axis = ''Y''" by blast
  then show "\<exists>df'. out = Frame df'
               \<and> get_column df' (um_col axis) = Inr (map (scale_cell (3906 / 10000)) px)
               \<and> px_col axis \<notin> set (columns df')"
  proof cases
    case X
    from resolve_dim_pixel_only_result[of "''X''" df px ?k after_x] h x X dfx
    have 1: "get_column dfx (um_col ''X'') = Inr (map (scale_cell ?k) px)"
      and 2: "px_col ''X'' \<notin> set (columns dfx)" by auto
    have "map_of (cols dfy) (um_col ''X'') = map_of (cols dfx) (um_col ''X'')"
      "map_of (cols dfy) (px_col ''X'') = map_of (cols dfx) (px_col ''X'')"
      using resolve_dim_other_columns[of ?k dfx "''Y''" dfy] y dfx dfy by simp_all
    with 1 2 X dfy show ?thesis
      by (simp add: get_column_Inr_iff in_columns_iff)
  next
    case Y
    have "map_of (cols dfx) (um_col ''Y'') = map_of (cols df) (um_col ''Y'')"
      "map_of (cols dfx) (px_col ''Y'') = map_of (cols df) (px_col ''Y'')"
      using resolve_dim_other_columns[of ?k df "''X''" dfx] x dfx by simp_all
    with h Y have "um_col ''Y'' \<notin> set (columns dfx)" "get_column dfx (px_col ''Y'') = Inr px"
      by (simp_all add: get_column_Inr_iff in_columns_iff)
    from resolve_dim_pixel_only_result[OF this, of ?k out] y dfx Y show ?thesis by simp
  qed
next
  show "(\<exists>df'. convert_pixels_to_micrometre df pixel_size = Inr (Frame df'))
            \<longleftrightarrow> axis_usable df ''X'' \<and> axis_usable df ''Y''"
    by (rule convert_returns_iff)
next
  assume "um_col ''X'' \<in> set (columns df) \<and> px_col ''X'' \<notin> set (columns df)
            \<and> um_col ''Y'' \<in> set (columns df) \<and> px_col ''Y'' \<notin> set (columns df)"
  then show "convert_pixels_to_micrometre df pixel_size = Inr (Frame df)"
    by (simp add: convert_pixels_to_micrometre_def resolve_dim.simps)
qed


theorem pixel_only_axis_converted_witness:
  "distinct (columns pixel_table)
   \<and> um_col ''X'' \<notin> set (columns pixel_table)
   \<and> get_column pixel_table (px_col ''X'') = Inr [Num 100]
   \<and> (\<exists>df'. convert_pixels_to_micrometre pixel_table 1 = Inr (Frame df')
         \<and> get_column df' (um_col ''X'') = Inr [Num (3906 / 100)]
         \<and> px_col ''X'' \<notin> set (columns df'))
   \<and> distinct (columns micron_table)
   \<and> convert_pixels_to_micrometre micron_table 1 = Inr (Frame micron_table)"
proof -
  have d: "distinct (columns pixel_table)"
    by (simp add: pixel_table_def columns_def um_col_def px_col_def)
  have um: "um_col ''X'' \<notin> set (columns pixel_table)"
    by (simp add: pixel_table_def columns_def um_col_def px_col_def)
  have px: "get_column pixel_table (px_col ''X'') = Inr [Num 100]"
    by (simp add: pixel_table_def get_column_def um_col_def px_col_def)
  have us: "axis_usable pixel_table ''X'' \<and> axis_usable pixel_table ''Y''"
    by (simp add: axis_usable_def pixel_table_def columns_def get_column_def um_col_def px_col_def)
  from pixel_only_axis_converted[OF d, of 1] us
  obtain df' where r: "convert_pixels_to_micrometre pixel_table 1 = Inr (Frame df')" by blast
  from pixel_only_axis_converted[OF d, of 1] um px r
  have "\<exists>df''. Frame df' = Frame df''
          \<and> get_column df'' (um_col ''X'') = Inr (map (scale_cell (3906 / 10000)) [Num 100])
          \<and> px_col ''X'' \<notin> set (columns df'')"
    by blast
  then have conv: "\<exists>df'. convert_pixels_to_micrometre pixel_table 1 = Inr (Frame df')
         \<and> get_column df' (um_col ''X'') = Inr [Num (3906 / 100)]
         \<and> px_col ''X'' \<notin> set (columns df')"
    using r by simp
  have dm: "distinct (columns micron_table)"
    by (simp add: micron_table_def columns_def um_col_def px_col_def)
  have "um_col ''X'' \<in> set (columns micron_table) \<and> px_col ''X'' \<notin> set (columns micron_table)
      \<and> um_col ''Y'' \<in> set (columns micron_table) \<and> px_col ''Y'' \<notin> set (columns micron_table)"
    by (simp add: micron_table_def columns_def um_col_def px_col_def)
  with pixel_only_axis_converted[OF dm, of 1]
  have "convert_pixels_to_micrometre micron_table 1 = Inr (Frame micron_table)" by blast
  with d um px conv dm show ?thesis by blast
qed

text \<open>
  C9. The \<^verbatim>\<open>pixel_size\<close> argument of the resolver has no influence on its result: the body
  overwrites it with 0.3906 before its first use.
\<close>

theorem pixel_size_parameter_ignored:
  "convert_pixels_to_micrometre df p = convert_pixels_to_micrometre df q"
  by (simp add: convert_pixels_to_micrometre_def)

theorem pixel_size_parameter_ignored_witness:
  "convert_pixels_to_micrometre pixel_table 1 = convert_pixels_to_micrometre pixel_table (1 / 2)"
  using pixel_size_parameter_ignored[of pixel_table 1 "1 / 2"] .

section \<open>Properties of the Duplicate Column Merger\<close>

lemma count_duplicated_labels:
  "count_list (duplicated_labels seen ns) n =
     (if n \<in> set seen then count_list ns n else count_list ns n - 1)"
  by (induction ns arbitrary: seen) auto

lemma set_duplicated_labels:
  "n \<in> set (duplicated_labels [] ns) \<longleftrightarrow> 1 < count_list ns n"
proof -
  have "n \<in> set (duplicated_labels [] ns) \<longleftrightarrow> count_list (duplicated_labels [] ns) n \<noteq> 0"
    by (simp add: count_list_0_iff)
  then show ?thesis by (auto simp: count_duplicated_labels)
qed

lemma filter_label_select:
  "filter (\<lambda>nc. fst nc = key) (concat (map (\<lambda>l. filter (\<lambda>nc. fst nc = l) cs) ls)) =
     concat (replicate (count_list ls key) (filter (\<lambda>nc. fst nc = key) cs))"
proof (induction ls)
  case Nil
  then show ?case by simp
next
  case (Cons l ls)
  have "filter (\<lambda>nc. fst nc = key) (filter (\<lambda>nc. fst nc = l) cs) =
          (if l = key then filter (\<lambda>nc. fst nc = key) cs else [])"
    by (induction cs) auto
  with Cons show ?case by simp
qed

lemma nums_append: "nums (xs @ ys) = nums xs @ nums ys"
  by (induction xs rule: nums.induct) auto

lemma nums_replicate:
  "nums (concat (replicate m xs)) = concat (replicate m (nums xs))"
  by (induction m) (auto simp: nums_append)

lemma sum_list_replicate_concat:
  "sum_list (concat (replicate m (xs :: rat list))) = of_nat m * sum_list xs"
  by (induction m) (auto simp: algebra_simps)

lemma length_replicate_concat:
  "length (concat (replicate m xs)) = m * length xs"
  by (induction m) auto

lemma nanmean_replicate:
  assumes "0 < m"
  shows "nanmean (concat (replicate m vs)) = nanmean vs"
proof (cases "nums vs = []")
  case True
  then have "nums (concat (replicate m vs)) = []"
    by (simp add: nums_replicate)
  with True show ?thesis by (simp add: nanmean_def)
next
  case False
  then have ne: "nums (concat (replicate m vs)) \<noteq> []"
    using assms by (cases m) (auto simp: nums_append)
  have "sum_list (nums (concat (replicate m vs))) / of_nat (length (nums (concat (replicate m vs))))
      = sum_list (nums vs) / of_nat (length (nums vs))"
    using assms by (simp add: nums_replicate sum_list_replicate_concat length_replicate_concat)
  with False ne show ?thesis by (simp add: nanmean_def)
qed

lemma distinct_filter_count:
  "(\<And>n. P n \<Longrightarrow> count_list ns n \<le> 1) \<Longrightarrow> distinct (filter P ns)"
proof (induction ns)
  case Nil
  then show ?case by simp
next
  case (Cons m ns)
  have le: "P n \<Longrightarrow> count_list ns n \<le> 1" for n
    using Cons.prems[of n] by (simp split: if_splits)
  have "m \<notin> set ns" if "P m"
    using Cons.prems[OF that] by (simp add: count_list_0_iff[symmetric])
  with Cons.IH le show ?case by auto
qed

lemma distinct_filter_count_one:
  "distinct (map fst (filter (\<lambda>nc. count_list (map fst cs) (fst nc) = 1) cs))"
proof -
  have "map fst (filter (\<lambda>nc. count_list (map fst cs) (fst nc) = 1) cs)
      = filter (\<lambda>n. count_list (map fst cs) n = 1) (map fst cs)"
    by (simp add: filter_map comp_def)
  moreover have "distinct (filter (\<lambda>n. count_list (map fst cs) n = 1) (map fst cs))"
    by (rule distinct_filter_count) simp
  ultimately show ?thesis by simp
qed


lemma sort_remdups_cong:
  "set xs = set ys \<Longrightarrow> sort (remdups xs) = sort (remdups (ys :: string list))"
  by (rule sorted_distinct_set_unique) simp_all

lemma remove_duplicate_columns_eq:
  assumes numeric: "list_all (\<lambda>nc. count_list (columns df) (fst nc) \<le> 1 \<or> \<not> list_ex is_str (snd nc)) (cols df)"
  shows "remove_duplicate_columns df =
     Inr (df\<lparr>cols :=
       filter (\<lambda>nc. count_list (columns df) (fst nc) = 1) (cols df)
       @ map (\<lambda>key. (key, merged_column df key))
             (sort (remdups (filter (\<lambda>n. 1 < count_list (columns df) n) (columns df))))\<rparr>)"
proof -
  let ?cs = "cols df" and ?ns = "columns df"
  let ?D = "duplicated_labels [] ?ns"
  let ?selcols = "concat (map (\<lambda>l. filter (\<lambda>nc. fst nc = l) ?cs) ?D)"
  let ?sel = "df\<lparr>cols := ?selcols\<rparr>"
  let ?keys = "sort (remdups (filter (\<lambda>n. 1 < count_list ?ns n) ?ns))"
  have D_set: "n \<in> set ?D \<longleftrightarrow> 1 < count_list ?ns n" for n
    by (rule set_duplicated_labels)
  have D_in: "n \<in> set ?D \<Longrightarrow> n \<in> set ?ns" for n
    using D_set[of n] count_list_0_iff[of ?ns n] by auto
  have sel: "select_columns df ?D = Inr ?sel"
    using D_in by (simp add: select_columns_def list_all_iff)
  have sel_sub: "nc \<in> set ?selcols \<Longrightarrow> nc \<in> set ?cs \<and> fst nc \<in> set ?D" for nc
    by auto
  have no_str: "\<not> list_ex (\<lambda>nc. list_ex is_str (snd nc)) ?selcols"
  proof -
    have "\<not> list_ex is_str (snd nc)" if "nc \<in> set ?selcols" for nc
    proof -
      from sel_sub[OF that] have "nc \<in> set ?cs" "1 < count_list ?ns (fst nc)"
        using D_set by auto
      with numeric show ?thesis by (auto simp: list_all_iff)
    qed
    then show ?thesis unfolding list_ex_iff by blast
  qed
  have sel_labels: "set (map fst ?selcols) = set ?D"
  proof
    show "set (map fst ?selcols) \<subseteq> set ?D" by auto
    show "set ?D \<subseteq> set (map fst ?selcols)"
    proof
      fix n assume n: "n \<in> set ?D"
      then have "n \<in> set ?ns" by (rule D_in)
      then obtain c where "(n, c) \<in> set ?cs" by (auto simp: columns_def)
      with n show "n \<in> set (map fst ?selcols)" by force
    qed
  qed
  have keys: "sort (remdups (columns ?sel)) = ?keys"
  proof -
    have "set (columns ?sel) = set (filter (\<lambda>n. 1 < count_list ?ns n) ?ns)"
      using sel_labels D_set D_in by (auto simp: columns_def)
    then show ?thesis by (rule sort_remdups_cong)
  qed
  have keys_set: "key \<in> set ?keys \<longleftrightarrow> 1 < count_list ?ns key" for key
    using count_list_0_iff[of ?ns key] by auto
  have col: "map (\<lambda>i. nanmean (map (\<lambda>nc. snd nc ! i) (filter (\<lambda>nc. fst nc = key) ?selcols)))
                 [0..<nrows df] = merged_column df key"
    if "key \<in> set ?keys" for key
  proof -
    have pos: "0 < count_list ?D key"
      using that keys_set[of key] by (simp add: count_duplicated_labels)
    have "nanmean (map f (filter (\<lambda>nc. fst nc = key) ?selcols))
        = nanmean (map f (filter (\<lambda>nc. fst nc = key) ?cs))" for f :: "string \<times> cell list \<Rightarrow> cell"
      using nanmean_replicate[OF pos]
      by (simp add: filter_label_select map_concat map_replicate)
    then show ?thesis by (simp add: merged_column_def)
  qed
  have merged: "groupby_columns_mean ?sel =
      Inr (?sel\<lparr>cols := map (\<lambda>key. (key, merged_column df key)) ?keys\<rparr>)"
  proof -
    have "map (\<lambda>key. (key, map (\<lambda>i. nanmean (map (\<lambda>nc. snd nc ! i)
                 (filter (\<lambda>nc. fst nc = key) ?selcols))) [0..<nrows df])) ?keys
        = map (\<lambda>key. (key, merged_column df key)) ?keys"
      using col by (intro map_cong) simp_all
    then show ?thesis
      using no_str keys by (simp add: groupby_columns_mean_def)
  qed
  have kept_eq: "filter (\<lambda>nc. fst nc \<notin> set ?D) ?cs
               = filter (\<lambda>nc. count_list ?ns (fst nc) = 1) ?cs"
  proof (rule filter_cong[OF refl])
    fix nc assume "nc \<in> set ?cs"
    then have "fst nc \<in> set ?ns" by (simp add: columns_def)
    then have "count_list ?ns (fst nc) \<noteq> 0" by (simp add: count_list_0_iff)
    then show "(fst nc \<notin> set ?D) = (count_list ?ns (fst nc) = 1)"
      using D_set[of "fst nc"] by auto
  qed
  have kept: "drop_columns df ?D =
      Inr (df\<lparr>cols := filter (\<lambda>nc. count_list ?ns (fst nc) = 1) ?cs\<rparr>)"
    using D_in kept_eq by (simp add: drop_columns_def list_all_iff)
  have disjoint: "\<not> list_ex (\<lambda>l. l \<in> set (map fst (filter (\<lambda>nc. count_list ?ns (fst nc) = 1) ?cs))) ?keys"
    unfolding list_ex_iff using keys_set by auto
  show ?thesis
    unfolding remove_duplicate_columns_def Let_def sel sum.case merged kept
    using disjoint by (simp add: join_def columns_def comp_def)
qed


lemma nanmean_cases:
  "nanmean vs = (case nums vs of [] \<Rightarrow> NaN | [v] \<Rightarrow> Num v
                 | ws \<Rightarrow> Num (sum_list ws / of_nat (length ws)))"
  by (simp add: nanmean_def split: list.splits)

text \<open>
  C3. The merger returns a table for every well-formed table whose colliding columns hold no
  strings. Its labels are distinct and are the labels of the input; the columns with a unique
  label pass through unchanged and in order; and for every colliding label and every row the
  merged cell is missing when all colliding cells are missing, the one value when exactly one is
  present, and the arithmetic mean of the present values otherwise. (The source averages over a
  selection that repeats every colliding column once per repeated label; the mean is the same.)
\<close>

theorem duplicate_columns_merged:
  assumes wf: "wf_frame df"
    and numeric: "list_all (\<lambda>nc. count_list (columns df) (fst nc) \<le> 1
                              \<or> \<not> list_ex is_str (snd nc)) (cols df)"
  shows "\<exists>df'. remove_duplicate_columns df = Inr df'
      \<and> nrows df' = nrows df \<and> wf_frame df' \<and> distinct (columns df')
      \<and> set (columns df') = set (columns df)
      \<and> filter (\<lambda>nc. count_list (columns df) (fst nc) = 1) (cols df')
          = filter (\<lambda>nc. count_list (columns df) (fst nc) = 1) (cols df)
      \<and> (\<forall>key. 1 < count_list (columns df) key \<longrightarrow>
            (\<exists>c. get_column df' key = Inr c \<and> length c = nrows df
               \<and> (\<forall>i. i < nrows df \<longrightarrow>
                     c ! i = (case nums (map (\<lambda>nc. snd nc ! i)
                                          (filter (\<lambda>nc. fst nc = key) (cols df))) of
                                [] \<Rightarrow> NaN
                              | [v] \<Rightarrow> Num v
                              | vs \<Rightarrow> Num (sum_list vs / of_nat (length vs))))))"
proof -
  let ?ns = "columns df"
  let ?K = "filter (\<lambda>nc. count_list ?ns (fst nc) = 1) (cols df)"
  let ?keys = "sort (remdups (filter (\<lambda>n. 1 < count_list ?ns n) ?ns))"
  let ?M = "map (\<lambda>key. (key, merged_column df key)) ?keys"
  let ?df' = "df\<lparr>cols := ?K @ ?M\<rparr>"
  have res: "remove_duplicate_columns df = Inr ?df'"
    using numeric by (rule remove_duplicate_columns_eq)
  have keys_set: "key \<in> set ?keys \<longleftrightarrow> 1 < count_list ?ns key" for key
    using count_list_0_iff[of ?ns key] by auto
  have wf': "wf_frame ?df'"
    using wf by (auto simp: wf_frame_def list_all_iff merged_column_def)
  have dK: "distinct (map fst ?K)"
    unfolding columns_def by (rule distinct_filter_count_one)
  have dM: "distinct (map fst ?M)"
    by (simp add: comp_def)
  have disj: "set (map fst ?K) \<inter> set (map fst ?M) = {}"
    using keys_set by (auto simp: comp_def)
  have dist: "distinct (columns ?df')"
    using dK dM disj by (simp add: columns_def)
  have labels: "set (columns ?df') = set ?ns"
  proof -
    have "n \<in> set ?ns \<Longrightarrow> count_list ?ns n = 1 \<or> 1 < count_list ?ns n" for n
      using count_list_0_iff[of ?ns n] by auto
    moreover have "set (map fst ?K) = {n \<in> set ?ns. count_list ?ns n = 1}"
      by (auto simp: columns_def image_iff)
    moreover have "set (map fst ?M) = {n \<in> set ?ns. 1 < count_list ?ns n}"
      by (auto simp: comp_def)
    ultimately show ?thesis
      unfolding columns_def by (simp del: set_filter set_map map_map) blast
  qed
  have fM: "filter (\<lambda>nc. count_list ?ns (fst nc) = 1) ?M = []"
    using keys_set by (auto simp: filter_empty_conv)
  have pass: "filter (\<lambda>nc. count_list ?ns (fst nc) = 1) (cols ?df') = ?K"
    using fM by simp
  have merged: "\<exists>c. get_column ?df' key = Inr c \<and> length c = nrows df
               \<and> (\<forall>i. i < nrows df \<longrightarrow>
                     c ! i = (case nums (map (\<lambda>nc. snd nc ! i)
                                          (filter (\<lambda>nc. fst nc = key) (cols df))) of
                                [] \<Rightarrow> NaN
                              | [v] \<Rightarrow> Num v
                              | vs \<Rightarrow> Num (sum_list vs / of_nat (length vs))))"
    if key: "1 < count_list ?ns key" for key
  proof -
    have "key \<notin> fst ` set ?K" using key by auto
    then have "map_of ?K key = None" by (simp add: map_of_eq_None_iff)
    moreover have "map_of ?M key = Some (merged_column df key)"
      using key keys_set[of key] by (simp add: map_of_map_restrict)
    ultimately have g: "get_column ?df' key = Inr (merged_column df key)"
      by (simp add: get_column_def map_add_def)
    have l: "length (merged_column df key) = nrows df"
      by (simp add: merged_column_def)
    have "merged_column df key ! i = (case nums (map (\<lambda>nc. snd nc ! i)
                                          (filter (\<lambda>nc. fst nc = key) (cols df))) of
                                [] \<Rightarrow> NaN
                              | [v] \<Rightarrow> Num v
                              | vs \<Rightarrow> Num (sum_list vs / of_nat (length vs)))"
      if "i < nrows df" for i
      using that by (simp add: merged_column_def nanmean_cases)
    with g l show ?thesis by blast
  qed
  from res wf' dist labels pass merged show ?thesis
    by (intro exI[of _ ?df']) simp
qed

theorem duplicate_columns_merged_witness:
  "wf_frame collision_table
   \<and> list_all (\<lambda>nc. count_list (columns collision_table) (fst nc) \<le> 1
                   \<or> \<not> list_ex is_str (snd nc)) (cols collision_table)
   \<and> (\<exists>df' c. remove_duplicate_columns collision_table = Inr df'
         \<and> distinct (columns df')
         \<and> get_column df' ''B'' = get_column collision_table ''B''
         \<and> get_column df' ''A'' = Inr c \<and> length c = 4
         \<and> c ! 0 = Num 1 \<and> c ! 1 = Num 3 \<and> c ! 2 = Num 3 \<and> c ! 3 = NaN)"
proof -
  have wf: "wf_frame collision_table"
    by (simp add: wf_frame_def collision_table_def)
  have numeric: "list_all (\<lambda>nc. count_list (columns collision_table) (fst nc) \<le> 1
                   \<or> \<not> list_ex is_str (snd nc)) (cols collision_table)"
    by (simp add: collision_table_def columns_def)
  have cnt: "1 < count_list (columns collision_table) ''A''"
    "count_list (columns collision_table) ''B'' = 1"
    by (simp_all add: collision_table_def columns_def)
  from duplicate_columns_merged[OF wf numeric] obtain df' where
    r: "remove_duplicate_columns collision_table = Inr df'"
    and d: "distinct (columns df')"
    and u: "filter (\<lambda>nc. count_list (columns collision_table) (fst nc) = 1) (cols df')
          = filter (\<lambda>nc. count_list (columns collision_table) (fst nc) = 1) (cols collision_table)"
    and m: "\<forall>key. 1 < count_list (columns collision_table) key \<longrightarrow>
            (\<exists>c. get_column df' key = Inr c \<and> length c = nrows collision_table
               \<and> (\<forall>i. i < nrows collision_table \<longrightarrow>
                     c ! i = (case nums (map (\<lambda>nc. snd nc ! i)
                                 (filter (\<lambda>nc. fst nc = key) (cols collision_table))) of
                                [] \<Rightarrow> NaN
                              | [v] \<Rightarrow> Num v
                              | vs \<Rightarrow> Num (sum_list vs / of_nat (length vs)))))"
    by blast
  from m cnt(1) obtain c where
    g: "get_column df' ''A'' = Inr c" and l: "length c = nrows collision_table"
    and v: "\<And>i. i < nrows collision_table \<Longrightarrow>
                     c ! i = (case nums (map (\<lambda>nc. snd nc ! i)
                                 (filter (\<lambda>nc. fst nc = ''A'') (cols collision_table))) of
                                [] \<Rightarrow> NaN
                              | [v] \<Rightarrow> Num v
                              | vs \<Rightarrow> Num (sum_list vs / of_nat (length vs)))"
    by blast
  have rows: "c ! 0 = Num 1" "c ! 1 = Num 3" "c ! 2 = Num 3" "c ! 3 = NaN"
    using v[of 0] v[of 1] v[of 2] v[of 3] by (simp_all add: collision_table_def)
  have "remove_duplicate_columns collision_table =
      Inr \<lparr>nrows = 4, cols = [(''B'', [Str ''w'', Str ''x'', Str ''y'', Str ''z'']),
                               (''A'', [Num 1, Num 3, Num 3, NaN])]\<rparr>"
    by code_simp
  with r have b: "get_column df' ''B'' = get_column collision_table ''B''"
    by (auto simp: get_column_def collision_table_def)
  from wf numeric r d b g l rows show ?thesis
    by (simp add: collision_table_def)
qed

section \<open>Properties of the marker filter\<close>

lemma select_columns_present:
  "set labels \<subseteq> set (columns df) \<Longrightarrow>
   select_columns df labels =
     Inr (df\<lparr>cols := concat (map (\<lambda>l. filter (\<lambda>nc. fst nc = l) (cols df)) labels)\<rparr>)"
  by (auto simp: select_columns_def list_all_iff)

lemma columns_select:
  "set labels \<subseteq> set (map fst cs) \<Longrightarrow>
   set (map fst (concat (map (\<lambda>l. filter (\<lambda>nc. fst nc = l) cs) labels))) = set labels"
  by (induction labels) (auto simp: image_iff)

lemma filter_label_distinct:
  "distinct (map fst cs) \<Longrightarrow> nc \<in> set cs \<Longrightarrow> filter (\<lambda>x. fst x = fst nc) cs = [nc]"
proof (induction cs)
  case Nil
  then show ?case by simp
next
  case (Cons c cs)
  show ?case
  proof (cases "nc = c")
    case True
    have "filter (\<lambda>x. fst x = fst c) cs = []"
      using Cons.prems(1) by (auto simp: filter_empty_conv image_iff)
    with True show ?thesis by simp
  next
    case False
    with Cons.prems have "nc \<in> set cs" "fst c \<noteq> fst nc"
      by (auto simp: image_iff)
    with Cons show ?thesis by simp
  qed
qed

lemma select_distinct:
  assumes "distinct (map fst cs)"
  shows "concat (map (\<lambda>l. filter (\<lambda>nc. fst nc = l) cs) (filter P (map fst cs)))
       = filter (\<lambda>nc. P (fst nc)) cs"
proof -
  have *: "concat (map (\<lambda>l. filter (\<lambda>nc. fst nc = l) cs) (map fst xs)) = xs"
    if "set xs \<subseteq> set cs" for xs
    using that
  proof (induction xs)
    case Nil
    then show ?case by simp
  next
    case (Cons x xs)
    then show ?case using filter_label_distinct[OF assms, of x] by simp
  qed
  have "filter P (map fst cs) = map fst (filter (\<lambda>nc. P (fst nc)) cs)"
    by (simp add: filter_map comp_def)
  then show ?thesis using *[of "filter (\<lambda>nc. P (fst nc)) cs"] by simp
qed

lemma kept_by_iff:
  "kept_by markers excluded col \<longleftrightarrow>
     (\<exists>m \<in> set markers. m \<notin> set excluded \<and> str_contains col (m @ '': ''))"
  by (auto simp: kept_by_def list_ex_iff)

lemma drop_markers_eq:
  "drop_markers df markers excluded =
     Inr (df\<lparr>cols := concat (map (\<lambda>l. filter (\<lambda>nc. fst nc = l) (cols df))
                                   (filter (kept_by markers excluded) (columns df)))\<rparr>)"
proof -
  have "set (filter (kept_by markers excluded) (columns df)) \<subseteq> set (columns df)" by auto
  from select_columns_present[OF this] show ?thesis
    by (simp add: drop_markers_def kept_by_def[abs_def])
qed

lemma columns_drop_markers:
  assumes "drop_markers df markers excluded = Inr df'"
  shows "set (columns df') = {col \<in> set (columns df). kept_by markers excluded col}"
proof -
  let ?labels = "filter (kept_by markers excluded) (map fst (cols df))"
  have sub: "set ?labels \<subseteq> set (map fst (cols df))" by auto
  from assms have "df' = df\<lparr>cols := concat (map (\<lambda>l. filter (\<lambda>nc. fst nc = l) (cols df)) ?labels)\<rparr>"
    unfolding drop_markers_eq columns_def by simp
  then have "columns df' = map fst (concat (map (\<lambda>l. filter (\<lambda>nc. fst nc = l) (cols df)) ?labels))"
    by (simp add: columns_def)
  then have "set (columns df') = set ?labels"
    using columns_select[OF sub] by (simp only:)
  also have "\<dots> = {col \<in> set (columns df). kept_by markers excluded col}"
    by (simp add: columns_def)
  finally show ?thesis .
qed

lemma drop_markers_distinct:
  assumes "distinct (columns df)"
  shows "drop_markers df markers excluded =
     Inr (df\<lparr>cols := filter (\<lambda>nc. kept_by markers excluded (fst nc)) (cols df)\<rparr>)"
  using select_distinct[of "cols df" "kept_by markers excluded"] assms
  unfolding drop_markers_eq by (simp add: columns_def)

lemma cd4_token_not_in_cd45: "\<not> str_contains ''CD45: Cell: Mean'' (''CD4'' @ '': '')"
  by (simp add: str_contains_def sublist_code)

lemma cd45_token_in_cd45: "str_contains ''CD45: Cell: Mean'' (''CD45'' @ '': '')"
  by (simp add: str_contains_def sublist_code)

lemma cd45_collected:
  assumes "''CD45: Cell: Mean'' \<in> set (columns df)"
  shows "''CD45'' \<in> set (collect_markers df)"
proof -
  have "str_contains ''CD45: Cell: Mean'' ''Cell: Mean''"
    by (simp add: str_contains_def sublist_code)
  moreover have "str_replace '': Cell: Mean'' [] ''CD45: Cell: Mean'' = ''CD45''"
    by simp
  ultimately show ?thesis
    using assms unfolding collect_markers_def by force
qed

text \<open>
  C7. The marker filter keeps the columns whose label contains a kept marker name followed by
  \<^verbatim>\<open>": "\<close>. Whether \<^verbatim>\<open>CD45: Cell: Mean\<close> is kept does not depend on \<^verbatim>\<open>CD4\<close> being excluded, for any
  list of markers and any exclusion list; and with the markers collected from the table itself,
  as the pipeline does, the column is kept whenever \<^verbatim>\<open>CD45\<close> itself is not excluded.
\<close>

theorem excluding_CD4_keeps_CD45:
  "\<exists>with_cd4 without_cd4.
      drop_markers df markers (''CD4'' # excluded) = Inr with_cd4
    \<and> drop_markers df markers (removeAll ''CD4'' excluded) = Inr without_cd4
    \<and> set (columns with_cd4) =
        {col \<in> set (columns df).
           \<exists>m \<in> set markers. m \<notin> set (''CD4'' # excluded) \<and> str_contains col (m @ '': '')}
    \<and> (''CD45: Cell: Mean'' \<in> set (columns with_cd4)
         \<longleftrightarrow> ''CD45: Cell: Mean'' \<in> set (columns without_cd4))
    \<and> (''CD45: Cell: Mean'' \<in> set (columns df) \<and> ''CD45'' \<notin> set excluded \<longrightarrow>
         (\<exists>kept. drop_markers df (collect_markers df) (''CD4'' # excluded) = Inr kept
            \<and> ''CD45: Cell: Mean'' \<in> set (columns kept)))"
proof -
  obtain w where w: "drop_markers df markers (''CD4'' # excluded) = Inr w"
    using drop_markers_eq by blast
  obtain wo where wo: "drop_markers df markers (removeAll ''CD4'' excluded) = Inr wo"
    using drop_markers_eq by blast
  have cw: "set (columns w) =
        {col \<in> set (columns df).
           \<exists>m \<in> set markers. m \<notin> set (''CD4'' # excluded) \<and> str_contains col (m @ '': '')}"
    using columns_drop_markers[OF w] by (simp add: kept_by_iff)
  have "kept_by markers (''CD4'' # excluded) ''CD45: Cell: Mean''
      \<longleftrightarrow> kept_by markers (removeAll ''CD4'' excluded) ''CD45: Cell: Mean''"
  proof -
    have "m \<noteq> ''CD4''" if "str_contains ''CD45: Cell: Mean'' (m @ '': '')" for m
      using that cd4_token_not_in_cd45 by auto
    then show ?thesis unfolding kept_by_iff by auto
  qed
  then have indep: "''CD45: Cell: Mean'' \<in> set (columns w)
         \<longleftrightarrow> ''CD45: Cell: Mean'' \<in> set (columns wo)"
    using columns_drop_markers[OF w] columns_drop_markers[OF wo] by simp
  have pipe: "\<exists>kept. drop_markers df (collect_markers df) (''CD4'' # excluded) = Inr kept
            \<and> ''CD45: Cell: Mean'' \<in> set (columns kept)"
    if h: "''CD45: Cell: Mean'' \<in> set (columns df) \<and> ''CD45'' \<notin> set excluded"
  proof -
    obtain k where k: "drop_markers df (collect_markers df) (''CD4'' # excluded) = Inr k"
      using drop_markers_eq by blast
    have "kept_by (collect_markers df) (''CD4'' # excluded) ''CD45: Cell: Mean''"
      unfolding kept_by_iff using cd45_collected h cd45_token_in_cd45
      by (intro bexI[of _ "''CD45''"]) auto
    with columns_drop_markers[OF k] h k show ?thesis by simp
  qed
  from w wo cw indep pipe show ?thesis by blast
qed

theorem excluding_CD4_keeps_CD45_witness:
  "''CD45: Cell: Mean'' \<in> set (columns cd_table) \<and> ''CD45'' \<notin> set []
   \<and> (\<exists>kept. drop_markers cd_table (collect_markers cd_table) [''CD4''] = Inr kept
         \<and> ''CD45: Cell: Mean'' \<in> set (columns kept)
         \<and> ''CD4: Cell: Mean'' \<notin> set (columns kept))"
proof -
  have c: "''CD45: Cell: Mean'' \<in> set (columns cd_table)"
    by (simp add: cd_table_def columns_def)
  from excluding_CD4_keeps_CD45[of cd_table "collect_markers cd_table" "[]"]
  have "''CD45: Cell: Mean'' \<in> set (columns cd_table) \<and> ''CD45'' \<notin> set [] \<longrightarrow>
         (\<exists>kept. drop_markers cd_table (collect_markers cd_table) [''CD4''] = Inr kept
            \<and> ''CD45: Cell: Mean'' \<in> set (columns kept))"
    by blast
  with c obtain kept where k: "drop_markers cd_table (collect_markers cd_table) [''CD4''] = Inr kept"
    and in45: "''CD45: Cell: Mean'' \<in> set (columns kept)"
    by auto
  have "drop_markers cd_table (collect_markers cd_table) [''CD4''] =
     Inr \<lparr>nrows = 2, cols = [(''CD45: Cell: Mean'', [Num 8, Num 9]),
                             (''CD45: Nucleus: Mean'', [Num 10, Num 11])]\<rparr>"
    by code_simp
  with k have "''CD4: Cell: Mean'' \<notin> set (columns kept)"
    by (auto simp: columns_def)
  with c k in45 show ?thesis by simp
qed

section \<open>Properties of the Label Processor\<close>

lemma and_then_Inr_iff:
  "and_then r f = Inr y \<longleftrightarrow> (\<exists>v. r = Inr v \<and> f v = Inr y)"
  by (cases r) (simp_all add: and_then_def)

lemma unique_props [simp]:
  "set (unique xs) = set xs" "distinct (unique xs)"
  by (simp_all add: unique_def)

lemma sorted_unique_props:
  assumes "sorted_unique s = Inr ls"
  shows "sorted ls \<and> distinct ls \<and> set ls = set (strs s) \<and> list_all is_str s"
  using assms by (auto simp: sorted_unique_def split: if_splits)

lemma all_str_map: "list_all is_str col \<Longrightarrow> col = map Str (strs col)"
  by (induction col rule: strs.induct) auto

lemma contains_char: "str_contains x [c] \<longleftrightarrow> c \<in> set x"
proof -
  have "sublist [c] x \<longleftrightarrow> c \<in> set x"
    by (auto simp: sublist_def in_set_conv_decomp)
  then show ?thesis by (simp add: str_contains_def)
qed

lemma encoder_fold:
  assumes "n \<le> length xs" and "distinct xs"
  shows "dom (fold (\<lambda>i enc. enc(xs ! i \<mapsto> i)) [0..<n] Map.empty) = set (take n xs)
       \<and> (\<forall>i<n. fold (\<lambda>i enc. enc(xs ! i \<mapsto> i)) [0..<n] Map.empty (xs ! i) = Some i)"
proof -
  define E where "E k = fold (\<lambda>i enc. enc(xs ! i \<mapsto> i)) [0..<k] Map.empty" for k
  have E0: "E 0 = Map.empty" by (simp add: E_def)
  have ES: "E (Suc k) = (E k)(xs ! k \<mapsto> k)" for k by (simp add: E_def)
  have "dom (E n) = set (take n xs) \<and> (\<forall>i<n. E n (xs ! i) = Some i)"
    using assms(1)
  proof (induction n)
    case 0
    then show ?case by (simp add: E0)
  next
    case (Suc n)
    then have IH: "dom (E n) = set (take n xs)" "\<And>i. i < n \<Longrightarrow> E n (xs ! i) = Some i"
      by simp_all
    have n: "n < length xs" using Suc.prems by simp
    have neq: "xs ! i \<noteq> xs ! n" if "i < n" for i
      using that n assms(2) by (simp add: nth_eq_iff_index_eq)
    have "dom (E (Suc n)) = insert (xs ! n) (dom (E n))"
      by (simp add: ES)
    then have d: "dom (E (Suc n)) = set (take (Suc n) xs)"
      using IH(1) n by (simp add: take_Suc_conv_app_nth)
    have "E (Suc n) (xs ! i) = Some i" if "i < Suc n" for i
      using that IH(2) neq by (cases "i = n") (simp_all add: ES)
    with d show ?case by blast
  qed
  then show ?thesis by (simp add: E_def)
qed

lemma decoder_fold:
  "fold (\<lambda>i dec. dec(i \<mapsto> xs ! i)) [0..<n] Map.empty i = (if i < n then Some (xs ! i) else None)"
  by (induction n) (auto simp: less_Suc_eq)

lemma map_of_replace_label:
  "map_of (map (\<lambda>nc. if fst nc = n then (n, v) else nc) cs) m =
     (if m = n then (if n \<in> fst ` set cs then Some v else None) else map_of cs m)"
proof (induction cs)
  case Nil
  then show ?case by simp
next
  case (Cons c cs)
  then show ?case by (cases c) (force simp: image_iff)
qed

lemma get_set_column:
  "get_column (set_column df n v) m = (if m = n then Inr v else get_column df m)"
proof (cases "n \<in> set (columns df)")
  case True
  then show ?thesis
    by (simp add: get_column_def set_column_def map_of_replace_label columns_def)
next
  case False
  then have "map_of (cols df) n = None" by (simp add: in_columns_iff)
  with False show ?thesis
    by (auto simp: get_column_def set_column_def map_add_def split: option.splits)
qed

lemma class_rows_str_replace_class:
  assumes "column_str_replace df ''Class'' old new = Inr df'" and "class_rows df n"
  shows "class_rows df' n"
  using assms
  by (auto simp: column_str_replace_def series_str_replace_def class_rows_def get_set_column
      split: sum.splits if_splits)

lemma class_rows_replace_class:
  assumes "column_replace df ''Class'' xs v = Inr df'" and "class_rows df n"
  shows "class_rows df' n"
  using assms
  by (auto simp: column_replace_def series_replace_def class_rows_def get_set_column
      split: sum.splits)

lemma class_rows_name_step:
  assumes "except_KeyError df r = Inr df'" and "class_rows df n"
    and "r = column_str_replace df ''Name'' old new \<or> r = column_replace df ''Name'' xs v"
  shows "class_rows df' n"
proof (cases r)
  case (Inl e)
  with assms(1) have "df' = df"
    by (cases e) (simp_all add: except_KeyError_def)
  with assms(2) show ?thesis by simp
next
  case (Inr d)
  with assms(1) have d: "d = df'" by (simp add: except_KeyError_def)
  from assms(3) Inr d obtain s where "df' = set_column df ''Name'' s"
    by (auto simp: column_str_replace_def column_replace_def split: sum.splits)
  with assms(2) show ?thesis
    by (simp add: class_rows_def get_set_column)
qed

lemma working_set_nonempty:
  assumes "preprocess_celltypecolumn df to_remove replacement = Inr (df', found, Some cell_types)"
  shows "cell_types \<noteq> []"
proof -
  from assms obtain class0 df1 df2 df3 df4 df5 df6 class6 where
    c0: "get_column df ''Class'' = Inr class0" "list_ex (\<lambda>c. c \<noteq> NaN) class0"
    and s: "column_str_replace df ''Class'' ''Edited: '' [] = Inr df1"
      "except_KeyError df1 (column_str_replace df1 ''Name'' ''Edited: '' []) = Inr df2"
      "column_str_replace df2 ''Class'' ''Immune cells: '' [] = Inr df3"
      "except_KeyError df3 (column_str_replace df3 ''Name'' ''Immune cells: '' []) = Inr df4"
      "column_replace df4 ''Class'' to_remove replacement = Inr df5"
      "except_KeyError df5 (column_replace df5 ''Name'' to_remove replacement) = Inr df6"
    and c6: "get_column df6 ''Class'' = Inr class6" "sorted_unique class6 = Inr cell_types"
    by (auto simp: preprocess_celltypecolumn_def and_then_Inr_iff split: if_splits)
  let ?n = "length class0"
  have n: "0 < ?n" using c0(2) by (cases class0) simp_all
  have "class_rows df ?n" using c0(1) by (simp add: class_rows_def)
  then have "class_rows df1 ?n" using s(1) class_rows_str_replace_class by blast
  then have "class_rows df2 ?n" using s(2) class_rows_name_step by blast
  then have "class_rows df3 ?n" using s(3) class_rows_str_replace_class by blast
  then have "class_rows df4 ?n" using s(4) class_rows_name_step by blast
  then have "class_rows df5 ?n" using s(5) class_rows_replace_class by blast
  then have "class_rows df6 ?n" using s(6) class_rows_name_step by blast
  with c6(1) n have ne: "class6 \<noteq> []" by (auto simp: class_rows_def)
  from sorted_unique_props[OF c6(2)] have "set cell_types = set (strs class6)"
    and "list_all is_str class6" by simp_all
  moreover from this(2) have "class6 = map Str (strs class6)" by (rule all_str_map)
  with ne have "strs class6 \<noteq> []" by auto
  ultimately show ?thesis by (metis set_empty)
qed

text \<open>
  C4. Every working label set the label processor returns, on a table with distinct column
  labels, is non-empty, its labels are distinct and in ascending order, and the encoder and decoder built from them are inverse bijections between
  the labels and the indices \<open>0..N-1\<close>: label number \<open>i\<close> of the sorted list has index \<open>i\<close>.
\<close>

theorem encoder_decoder_bijection:
  assumes "preprocess_celltypecolumn df to_remove replacement = Inr (df', found, Some cell_types)"
    and "create_encoder_decoder cell_types = (encoder, decoder)"
    and "distinct (columns df)"
  shows "cell_types \<noteq> [] \<and> distinct cell_types \<and> sorted cell_types
       \<and> dom encoder = set cell_types
       \<and> dom decoder = {0..<length cell_types}
       \<and> bij_betw (\<lambda>l. the (encoder l)) (set cell_types) {0..<length cell_types}
       \<and> (\<forall>i. i < length cell_types \<longrightarrow>
             decoder i = Some (cell_types ! i) \<and> encoder (cell_types ! i) = Some i)
       \<and> (\<forall>l. l \<in> set cell_types \<longrightarrow> (\<exists>i. encoder l = Some i \<and> decoder i = Some l))
       \<and> (\<forall>i j. i < j \<and> j < length cell_types \<longrightarrow> cell_types ! i < cell_types ! j)"
proof -
  from assms(1) obtain class6 where "sorted_unique class6 = Inr cell_types"
    by (auto simp: preprocess_celltypecolumn_def and_then_Inr_iff split: if_splits)
  then have sd: "sorted cell_types" "distinct cell_types"
    using sorted_unique_props by blast+
  let ?n = "length cell_types"
  have enc: "encoder = fold (\<lambda>i enc. enc(cell_types ! i \<mapsto> i)) [0..<?n] Map.empty"
    and dec: "decoder = fold (\<lambda>i dec. dec(i \<mapsto> cell_types ! i)) [0..<?n] Map.empty"
    using assms(2) by (simp_all add: create_encoder_decoder_def)
  have e_dom: "dom encoder = set cell_types"
    and e_nth: "\<And>i. i < ?n \<Longrightarrow> encoder (cell_types ! i) = Some i"
    using encoder_fold[of ?n cell_types] sd(2) unfolding enc by simp_all
  have d_nth: "\<And>i. decoder i = (if i < ?n then Some (cell_types ! i) else None)"
    unfolding dec by (rule decoder_fold)
  have d_dom: "dom decoder = {0..<?n}"
    using d_nth by (auto simp: dom_def)
  have inv: "\<exists>i. encoder l = Some i \<and> decoder i = Some l" if "l \<in> set cell_types" for l
  proof -
    from that obtain i where "i < ?n" "cell_types ! i = l" by (auto simp: in_set_conv_nth)
    then show ?thesis using e_nth[of i] d_nth[of i] by auto
  qed
  have bij: "bij_betw (\<lambda>l. the (encoder l)) (set cell_types) {0..<?n}"
  proof (rule bij_betw_byWitness[where f' = "\<lambda>i. cell_types ! i"])
    show "\<forall>l\<in>set cell_types. cell_types ! the (encoder l) = l"
      using e_nth by (auto simp: in_set_conv_nth)
    show "\<forall>i\<in>{0..<?n}. the (encoder (cell_types ! i)) = i"
      using e_nth by simp
    show "(\<lambda>l. the (encoder l)) ` set cell_types \<subseteq> {0..<?n}"
      using e_nth by (auto simp: in_set_conv_nth)
    show "(\<lambda>i. cell_types ! i) ` {0..<?n} \<subseteq> set cell_types"
      by auto
  qed
  have ord: "cell_types ! i < cell_types ! j" if "i < j \<and> j < ?n" for i j
  proof -
    have "cell_types ! i \<le> cell_types ! j"
      using sd(1) that by (simp add: sorted_iff_nth_mono)
    moreover have "cell_types ! i \<noteq> cell_types ! j"
      using sd(2) that by (simp add: nth_eq_iff_index_eq)
    ultimately show ?thesis by simp
  qed
  have ne: "cell_types \<noteq> []"
    using assms(1) by (rule working_set_nonempty)
  from ne sd e_dom d_dom bij e_nth d_nth inv ord show ?thesis by simp
qed


lemma label_table_processed:
  "preprocess_celltypecolumn label_table [''Unknown''] ''Other'' =
     Inr (label_table_cleaned, Some [''B cells'', ''Unknown''], Some [''B cells'', ''Other''])"
  by code_simp

theorem encoder_decoder_bijection_witness:
  "\<exists>encoder decoder.
      distinct (columns label_table)
    \<and> preprocess_celltypecolumn label_table [''Unknown''] ''Other'' =
        Inr (label_table_cleaned, Some [''B cells'', ''Unknown''], Some [''B cells'', ''Other''])
    \<and> create_encoder_decoder [''B cells'', ''Other''] = (encoder, decoder)
    \<and> dom encoder = {''B cells'', ''Other''} \<and> dom decoder = {0, 1}
    \<and> encoder ''B cells'' = Some 0 \<and> encoder ''Other'' = Some 1
    \<and> decoder 0 = Some ''B cells'' \<and> decoder 1 = Some ''Other''"
proof -
  obtain encoder decoder where c: "create_encoder_decoder [''B cells'', ''Other''] = (encoder, decoder)"
    by (cases "create_encoder_decoder [''B cells'', ''Other'']") blast
  have di: "distinct (columns label_table)"
    by (simp add: label_table_def columns_def um_col_def)
  from encoder_decoder_bijection[OF label_table_processed c di]
  have d: "dom encoder = set [''B cells'', ''Other'']"
    "dom decoder = {0..<length [''B cells'', ''Other'']}"
    and n: "\<And>i. i < length [''B cells'', ''Other''] \<Longrightarrow>
             decoder i = Some ([''B cells'', ''Other''] ! i)
             \<and> encoder ([''B cells'', ''Other''] ! i) = Some i"
    by blast+
  have "dom decoder = {0, 1}" using d(2) by auto
  with di label_table_processed c d(1) n[of 0] n[of 1] show ?thesis by auto
qed

lemma sorted_two:
  assumes "set ls = {a, b}" "a < b" "sorted ls" "distinct ls"
  shows "ls = [a, b :: string]"
  by (rule sorted_distinct_set_unique) (use assms in auto)

text \<open>
  C2. For a \<^verbatim>\<open>Classification\<close> column holding exactly two distinct strings \<open>a < b\<close>, in a
  table with distinct labels, the decoder maps 1 to \<open>a\<close> and 0 to \<open>b\<close>, and the value written for a row is 1 exactly when its string
  contains the character \<^verbatim>\<open>+\<close>, whatever the decoder says.
\<close>

theorem binary_labels:
  assumes "get_column df ''Classification'' = Inr col"
    and "list_all is_str col"
    and "set (strs col) = {a, b}" and "a < b"
    and "distinct (columns df)"
  shows "\<exists>r. binarize_and_save_fm df = Inr r
       \<and> fm_decoder r = [1 \<mapsto> a, 0 \<mapsto> b]
       \<and> fm_encoder r = [a \<mapsto> 1, b \<mapsto> 0]
       \<and> length (binarized_labels_csv r) = length col
       \<and> (\<forall>i. i < length col \<longrightarrow>
             (\<exists>x. col ! i = Str x
                \<and> binarized_labels_csv r ! i = (if CHR ''+'' \<in> set x then 1 else 0)))"
proof -
  have ls: "sort (unique (strs col)) = [a, b]"
    using assms(3,4) by (intro sorted_two) simp_all
  have col: "col = map Str (strs col)"
    using assms(2) by (rule all_str_map)
  then have len: "length (strs col) = length col"
    by (metis length_map)
  let ?r = "\<lparr>fm_encoder = [a \<mapsto> 1, b \<mapsto> 0], fm_decoder = [1 \<mapsto> a, 0 \<mapsto> b],
             binarized_labels_csv = map (\<lambda>x. if str_contains x ''+'' then 1 else 0) (strs col)\<rparr>"
  have r: "binarize_and_save_fm df = Inr ?r"
    using assms(1,2) ls by (simp add: binarize_and_save_fm_def)
  have rows: "\<exists>x. col ! i = Str x
                \<and> binarized_labels_csv ?r ! i = (if CHR ''+'' \<in> set x then 1 else 0)"
    if "i < length col" for i
  proof -
    have "col ! i = Str (strs col ! i)"
      using that len col by (metis nth_map)
    then show ?thesis using that len by (simp add: contains_char)
  qed
  from r len rows show ?thesis by (intro exI[of _ ?r]) simp
qed

theorem binary_labels_witness:
  "distinct (columns fm_table)
   \<and> get_column fm_table ''Classification'' = Inr [Str ''B+'', Str ''A-'', Str ''B+'']
   \<and> list_all is_str [Str ''B+'', Str ''A-'', Str ''B+'']
   \<and> set (strs [Str ''B+'', Str ''A-'', Str ''B+'']) = {''A-'', ''B+''}
   \<and> ''A-'' < ''B+''
   \<and> (\<exists>r. binarize_and_save_fm fm_table = Inr r
         \<and> fm_decoder r 1 = Some ''A-'' \<and> fm_decoder r 0 = Some ''B+''
         \<and> binarized_labels_csv r = [1, 0, 1])"
proof -
  have g: "get_column fm_table ''Classification'' = Inr [Str ''B+'', Str ''A-'', Str ''B+'']"
    by (simp add: fm_table_def get_column_def)
  have s: "list_all is_str [Str ''B+'', Str ''A-'', Str ''B+'']" by simp
  have st: "set (strs [Str ''B+'', Str ''A-'', Str ''B+'']) = {''A-'', ''B+''}" by auto
  have lt: "''A-'' < ''B+''" by code_simp
  have di: "distinct (columns fm_table)" by (simp add: fm_table_def columns_def)
  from binary_labels[OF g s st lt di] obtain r where
    r: "binarize_and_save_fm fm_table = Inr r"
    and d: "fm_decoder r = [1 \<mapsto> ''A-'', 0 \<mapsto> ''B+'']"
    and l: "length (binarized_labels_csv r) = length [Str ''B+'', Str ''A-'', Str ''B+'']"
    and v: "\<And>i. i < length [Str ''B+'', Str ''A-'', Str ''B+''] \<Longrightarrow>
             (\<exists>x. [Str ''B+'', Str ''A-'', Str ''B+''] ! i = Str x
                \<and> binarized_labels_csv r ! i = (if CHR ''+'' \<in> set x then 1 else 0))"
    by blast
  have "binarized_labels_csv r ! 0 = 1" "binarized_labels_csv r ! 1 = 0"
    "binarized_labels_csv r ! 2 = 1"
    using v[of 0] v[of 1] v[of 2] by simp_all
  with l have "binarized_labels_csv r = [1, 0, 1]"
    by (auto simp: list_eq_iff_nth_eq less_Suc_eq numeral_3_eq_3 numeral_2_eq_2)
  with di g s st lt r d show ?thesis by simp
qed

section \<open>Properties of the pipeline\<close>


lemma stage_Inr_iff:
  "stage out r f = (out', Inr rep) \<longleftrightarrow> (\<exists>v. r = Inr v \<and> f v = (out', Inr rep))"
  by (cases r) (auto simp: stage_def)

lemma impute_column_columns:
  assumes "impute_column old new df col = Inr df'"
  shows "columns df' = columns df"
proof -
  from assms obtain vs where v: "get_column df col = Inr vs"
    by (auto simp: impute_column_def split: sum.splits)
  then have "col \<in> set (columns df)" by (rule get_column_in_columns)
  then have "columns (set_column df col x) = columns df" for x
    by (rule columns_set_column_present)
  with assms v show ?thesis
    by (auto simp: impute_column_def split: sum.splits if_splits)
qed

lemma for_each_columns:
  assumes "\<And>s x s'. body s x = Inr s' \<Longrightarrow> columns s' = columns s"
    and "for_each body s xs = Inr s'"
  shows "columns s' = columns s"
  using assms(2)
proof (induction xs arbitrary: s)
  case Nil
  then show ?case by simp
next
  case (Cons x xs)
  then obtain s1 where 1: "body s x = Inr s1" and 2: "for_each body s1 xs = Inr s'"
    by (auto split: sum.splits)
  from Cons.IH[OF 2] assms(1)[OF 1] show ?case by simp
qed

lemma replace_cytoplasm_columns:
  "replace_cytoplasm_with_membrane df = Inr df' \<Longrightarrow> columns df' = columns df"
  unfolding replace_cytoplasm_with_membrane_def
  by (rule for_each_columns[OF impute_column_columns])

lemma use_cell_measurement_columns:
  "use_cell_measurement df = Inr df' \<Longrightarrow> columns df' = columns df"
  unfolding use_cell_measurement_def
  by (rule for_each_columns[OF impute_column_columns])

lemma drop_columns_subset:
  "drop_columns df labels = Inr df' \<Longrightarrow> set (columns df') \<subseteq> set (columns df)"
  by (auto simp: drop_columns_def columns_def split: if_splits)

lemma kept_by_delimiter:
  assumes "kept_by markers excluded col"
  shows "str_contains col '': ''"
proof -
  from assms obtain m where "sublist (m @ '': '') col"
    by (auto simp: kept_by_iff str_contains_def)
  moreover have "sublist '': '' (m @ '': '')"
    by (rule sublist_append_leftI)
  ultimately have "sublist '': '' col"
    by (rule sublist_order.order.trans[rotated])
  then show ?thesis by (simp add: str_contains_def)
qed

lemma metadata_labels_without_delimiter:
  "\<not> str_contains ''Image'' '': ''" "\<not> str_contains ''Class'' '': ''"
  "\<not> str_contains ''Name'' '': ''"
  "\<not> str_contains (um_col ''X'') '': ''" "\<not> str_contains (um_col ''Y'') '': ''"
  "\<not> str_contains (px_col ''X'') '': ''" "\<not> str_contains (px_col ''Y'') '': ''"
  by (simp_all add: str_contains_def sublist_code um_col_def px_col_def micro_def)



lemma feature_stages_success:
  assumes "feature_stages cfg df0 out rep = (out', Inr rep')"
  shows "\<exists>df1 image df3 df4 df8.
      convert_pixels_to_micrometre df0 (3906 / 10000) = Inr (Frame df1)
    \<and> save_image_coordinate_columns df1 (additional_meta_data_to_keep cfg) = Inr image
    \<and> remove_duplicate_columns (remove_prefixes_underscores df1) = Inr df3
    \<and> drop_markers df3 (collect_markers df3) (unwanted_markers cfg) = Inr df4
    \<and> set (columns df8) \<subseteq> set (columns df4)
    \<and> out' = out\<lparr>images_csv := Some image, preprocessed_input_data := Some df8\<rparr>
    \<and> rep' = rep\<lparr>markers_table := collect_markers df3,
                    after_drop_markers_table := collect_markers df4,
                    null_columns_table :=
                      map fst (filter (\<lambda>nc. list_ex (\<lambda>c. c = NaN) (snd nc)) (cols df8))\<rparr>"
proof -
  from assms obtain converted df1 image cc df3 df4 df5 df6 df7 df8 where
    s: "convert_pixels_to_micrometre df0 (3906 / 10000) = Inr converted"
      "(case converted of Series s \<Rightarrow> Inl IndexingError | Frame df \<Rightarrow> Inr df) = Inr df1"
      "save_image_coordinate_columns df1 (additional_meta_data_to_keep cfg) = Inr image"
      "get_column df1 ''Class'' = Inr cc"
      "remove_duplicate_columns (remove_prefixes_underscores df1) = Inr df3"
      "drop_markers df3 (collect_markers df3) (unwanted_markers cfg) = Inr df4"
      "replace_cytoplasm_with_membrane df4 = Inr df5"
      "use_cell_measurement df5 = Inr df6"
      "remove_unwanted_compartments df6 (unwanted_compartments cfg) = Inr df7"
      "remove_statistics df7 (unwanted_statistics cfg) = Inr df8"
    and o: "out' = out\<lparr>images_csv := Some image, preprocessed_input_data := Some df8\<rparr>"
    and r: "rep' = rep\<lparr>markers_table := collect_markers df3,
                    after_drop_markers_table := collect_markers df4,
                    null_columns_table :=
                      map fst (filter (\<lambda>nc. list_ex (\<lambda>c. c = NaN) (snd nc)) (cols df8))\<rparr>"
    unfolding feature_stages_def Let_def stage_Inr_iff by auto
  from s(2) have c: "converted = Frame df1"
    by (cases converted) simp_all
  have "set (columns df8) \<subseteq> set (columns df7)"
    using s(10) unfolding remove_statistics_def by (rule drop_columns_subset)
  moreover have "set (columns df7) \<subseteq> set (columns df6)"
    using s(9) unfolding remove_unwanted_compartments_def by (rule drop_columns_subset)
  moreover have "columns df6 = columns df5" using s(8) by (rule use_cell_measurement_columns)
  moreover have "columns df5 = columns df4" using s(7) by (rule replace_cytoplasm_columns)
  ultimately have "set (columns df8) \<subseteq> set (columns df4)" by simp
  with s c o r show ?thesis by blast
qed


lemma run_success:
  assumes "preprocess_training_data cfg input = (out, Inr rep)"
  shows "\<exists>df out1 rep1. feature_stages cfg df out1 rep1 = (out, Inr rep)"
  using assms unfolding preprocess_training_data_def Let_def stage_Inr_iff
  by (auto simp: stage_Inr_iff split: prod.splits)

text \<open>
  C10. Every column of the marker filter's output contains a kept marker name followed by
  \<^verbatim>\<open>": "\<close>; so \<^verbatim>\<open>Image\<close>, \<^verbatim>\<open>Class\<close>, \<^verbatim>\<open>Name\<close> and the centroid columns are not among them. The
  stages after the filter only fill cells or remove columns, so the same holds for the feature
  table of every run that completes (on a table whose normalised labels are distinct), with the
  markers the run collected.
\<close>

theorem marker_filter_keeps_measurements_only:
  "(\<exists>kept. drop_markers df markers excluded = Inr kept
      \<and> (\<forall>col. col \<in> set (columns kept) \<longrightarrow>
            (\<exists>m \<in> set markers. m \<notin> set excluded \<and> str_contains col (m @ '': '')))
      \<and> ''Image'' \<notin> set (columns kept) \<and> ''Class'' \<notin> set (columns kept)
      \<and> ''Name'' \<notin> set (columns kept)
      \<and> um_col ''X'' \<notin> set (columns kept) \<and> um_col ''Y'' \<notin> set (columns kept)
      \<and> px_col ''X'' \<notin> set (columns kept) \<and> px_col ''Y'' \<notin> set (columns kept))
   \<and> (\<forall>out rep. distinct (columns (remove_dots input))
           \<and> preprocess_training_data cfg input = (out, Inr rep) \<longrightarrow>
         (\<exists>final. preprocessed_input_data out = Some final
            \<and> (\<forall>col. col \<in> set (columns final) \<longrightarrow>
                  (\<exists>m \<in> set (markers_table rep).
                      m \<notin> set (unwanted_markers cfg) \<and> str_contains col (m @ '': '')))
            \<and> ''Image'' \<notin> set (columns final) \<and> ''Class'' \<notin> set (columns final)
            \<and> ''Name'' \<notin> set (columns final)
            \<and> um_col ''X'' \<notin> set (columns final) \<and> um_col ''Y'' \<notin> set (columns final)
            \<and> px_col ''X'' \<notin> set (columns final) \<and> px_col ''Y'' \<notin> set (columns final)))"
proof -
  have meta: "''Image'' \<notin> set (columns kept) \<and> ''Class'' \<notin> set (columns kept)
      \<and> ''Name'' \<notin> set (columns kept)
      \<and> um_col ''X'' \<notin> set (columns kept) \<and> um_col ''Y'' \<notin> set (columns kept)
      \<and> px_col ''X'' \<notin> set (columns kept) \<and> px_col ''Y'' \<notin> set (columns kept)"
    if kb: "\<And>col. col \<in> set (columns kept) \<Longrightarrow> kept_by ms ex col" for kept ms ex
  proof -
    have out: "col \<notin> set (columns kept)" if "\<not> str_contains col '': ''" for col
      using that kb[of col] kept_by_delimiter[of ms ex col] by blast
    show ?thesis
      by (intro conjI out metadata_labels_without_delimiter)
  qed
  have stage_part: "\<exists>kept. drop_markers d ms ex = Inr kept
      \<and> (\<forall>col. col \<in> set (columns kept) \<longrightarrow>
            (\<exists>m \<in> set ms. m \<notin> set ex \<and> str_contains col (m @ '': '')))
      \<and> ''Image'' \<notin> set (columns kept) \<and> ''Class'' \<notin> set (columns kept)
      \<and> ''Name'' \<notin> set (columns kept)
      \<and> um_col ''X'' \<notin> set (columns kept) \<and> um_col ''Y'' \<notin> set (columns kept)
      \<and> px_col ''X'' \<notin> set (columns kept) \<and> px_col ''Y'' \<notin> set (columns kept)" for d ms ex
  proof -
    obtain kept where k: "drop_markers d ms ex = Inr kept"
      using drop_markers_eq by blast
    have kb: "kept_by ms ex col" if "col \<in> set (columns kept)" for col
      using that columns_drop_markers[OF k] by simp
    then have "\<forall>col. col \<in> set (columns kept) \<longrightarrow>
            (\<exists>m \<in> set ms. m \<notin> set ex \<and> str_contains col (m @ '': ''))"
      by (simp add: kept_by_iff)
    with k meta[OF kb] show ?thesis by (intro exI[of _ kept]) simp
  qed
  have run_part: "\<exists>final. preprocessed_input_data out = Some final
            \<and> (\<forall>col. col \<in> set (columns final) \<longrightarrow>
                  (\<exists>m \<in> set (markers_table rep).
                      m \<notin> set (unwanted_markers cfg) \<and> str_contains col (m @ '': '')))
            \<and> ''Image'' \<notin> set (columns final) \<and> ''Class'' \<notin> set (columns final)
            \<and> ''Name'' \<notin> set (columns final)
            \<and> um_col ''X'' \<notin> set (columns final) \<and> um_col ''Y'' \<notin> set (columns final)
            \<and> px_col ''X'' \<notin> set (columns final) \<and> px_col ''Y'' \<notin> set (columns final)"
    if "preprocess_training_data cfg input = (out, Inr rep)" for out rep
  proof -
    from run_success[OF that] obtain df0 out1 rep1 where
      "feature_stages cfg df0 out1 rep1 = (out, Inr rep)" by blast
    from feature_stages_success[OF this] obtain df3 df4 df8 where
      d: "drop_markers df3 (collect_markers df3) (unwanted_markers cfg) = Inr df4"
      and sub: "set (columns df8) \<subseteq> set (columns df4)"
      and o: "preprocessed_input_data out = Some df8"
      and m: "markers_table rep = collect_markers df3"
      by auto
    have kb: "kept_by (markers_table rep) (unwanted_markers cfg) col"
      if "col \<in> set (columns df8)" for col
      using that sub columns_drop_markers[OF d] m by auto
    then have "\<forall>col. col \<in> set (columns df8) \<longrightarrow>
                  (\<exists>m \<in> set (markers_table rep).
                      m \<notin> set (unwanted_markers cfg) \<and> str_contains col (m @ '': ''))"
      by (simp add: kept_by_iff)
    with o meta[OF kb] show ?thesis by (intro exI[of _ df8]) simp
  qed
  from stage_part[of df markers excluded] run_part show ?thesis by blast
qed


lemma label_run_result:
  "snd (preprocess_training_data run_config label_table) =
     Inr \<lparr>warnings = [],
          found_cell_types_table = Some [''B cells'', ''Unknown''],
          cell_types_table = Some [''B cells'', ''Other''],
          encoding_table = Some [''B cells'', ''Other''],
          markers_table = [''CD20''], after_drop_markers_table = [''CD20''],
          null_columns_table = []\<rparr>"
  by code_simp

theorem marker_filter_keeps_measurements_only_witness:
  "(\<exists>kept. drop_markers cd_table (collect_markers cd_table) [''CD4''] = Inr kept
      \<and> columns kept = [''CD45: Cell: Mean'', ''CD45: Nucleus: Mean'']
      \<and> ''Image'' \<notin> set (columns kept))
   \<and> distinct (columns (remove_dots label_table))
   \<and> (\<exists>out rep final. preprocess_training_data run_config label_table = (out, Inr rep)
         \<and> preprocessed_input_data out = Some final
         \<and> ''Image'' \<notin> set (columns final) \<and> ''Class'' \<notin> set (columns final)
         \<and> um_col ''X'' \<notin> set (columns final))"
proof -
  note T = marker_filter_keeps_measurements_only[where df = cd_table
      and markers = "collect_markers cd_table" and excluded = "[''CD4'']"
      and cfg = run_config and input = label_table]
  from T[THEN conjunct1] obtain kept where
    k: "drop_markers cd_table (collect_markers cd_table) [''CD4''] = Inr kept"
    and ki: "''Image'' \<notin> set (columns kept)"
    by (elim exE conjE)
  have "drop_markers cd_table (collect_markers cd_table) [''CD4''] =
     Inr \<lparr>nrows = 2, cols = [(''CD45: Cell: Mean'', [Num 8, Num 9]),
                             (''CD45: Nucleus: Mean'', [Num 10, Num 11])]\<rparr>"
    by code_simp
  with k have kc: "columns kept = [''CD45: Cell: Mean'', ''CD45: Nucleus: Mean'']"
    by (auto simp: columns_def)
  obtain out rep where r: "preprocess_training_data run_config label_table = (out, Inr rep)"
    using label_run_result by (cases "preprocess_training_data run_config label_table") simp
  have di: "distinct (columns (remove_dots label_table))" by code_simp
  from T[THEN conjunct2, rule_format, OF conjI[OF di r]] obtain final where
    f: "preprocessed_input_data out = Some final"
    and fi: "''Image'' \<notin> set (columns final)" "''Class'' \<notin> set (columns final)"
    "um_col ''X'' \<notin> set (columns final)"
    by (elim exE conjE)
  have 1: "\<exists>kept. drop_markers cd_table (collect_markers cd_table) [''CD4''] = Inr kept
      \<and> columns kept = [''CD45: Cell: Mean'', ''CD45: Nucleus: Mean'']
      \<and> ''Image'' \<notin> set (columns kept)"
    using k kc ki by (intro exI[of _ kept] conjI)
  have 2: "\<exists>out rep final. preprocess_training_data run_config label_table = (out, Inr rep)
         \<and> preprocessed_input_data out = Some final
         \<and> ''Image'' \<notin> set (columns final) \<and> ''Class'' \<notin> set (columns final)
         \<and> um_col ''X'' \<notin> set (columns final)"
    using r f fi by (intro exI[of _ out] exI[of _ rep] exI[of _ final] conjI)
  from 1 di 2 show ?thesis by (intro conjI)
qed


lemma save_encoded_labels_eq:
  "save_encoded_labels df encoder =
     (if ''Name'' \<in> set (columns df)
      then Inr (df\<lparr>cols := map (\<lambda>nc. (fst nc, map (encode_label encoder) (snd nc)))
                              (filter (\<lambda>nc. fst nc = ''Name'') (cols df))\<rparr>)
      else Inl KeyError)"
  by (simp add: save_encoded_labels_def select_columns_def)

text \<open>
  The label step reads the \<^verbatim>\<open>Name\<close> column outside any \<^verbatim>\<open>try\<close>: on a table without one, whatever
  the encoder, it raises \<^verbatim>\<open>KeyError\<close> (line 339) and no label file is written.
\<close>

lemma save_encoded_labels_without_Name:
  "''Name'' \<notin> set (columns df) \<Longrightarrow> save_encoded_labels df encoder = Inl KeyError"
  by (simp add: save_encoded_labels_eq)


text \<open>
  Two runs that end before the label file is written, both on a table whose \<^verbatim>\<open>Class\<close> column is
  entirely missing. The first ends in the warnings, before the label processor: the table of
  colliding labels is built from lists of unequal length (\<^verbatim>\<open>ValueError\<close>, line 250). The second
  ends in the label step, its table having no \<^verbatim>\<open>Name\<close> column (\<^verbatim>\<open>KeyError\<close>, line 339).
\<close>

lemma uneven_collision_run:
  "filter (\<lambda>nc. fst nc = ''Class'') (cols (remove_dots uneven_collision_table))
     = [(''Class'', [NaN])]"
  "snd (preprocess_training_data run_config uneven_collision_table) = Inl ValueError"
  "cell_type_labels_csv (fst (preprocess_training_data run_config uneven_collision_table)) = None"
  by code_simp+

lemma unnamed_run:
  "filter (\<lambda>nc. fst nc = ''Class'') (cols (remove_dots unnamed_table))
     = [(''Class'', [NaN, NaN])]"
  "snd (preprocess_training_data run_config unnamed_table) = Inl KeyError"
  "cell_type_labels_csv (fst (preprocess_training_data run_config unnamed_table)) = None"
  by code_simp+







section \<open>Properties of the Column Normalizer\<close>

lemma sub_period_length [simp]: "length (sub_period behind s) = length s"
  by (induction s arbitrary: behind) auto

text \<open>
  The final rule as the source has it: a period becomes a space exactly when neither the
  character before it nor the character after it is a decimal digit.
\<close>

lemma sub_period_nth:
  assumes "i < length s"
  shows "sub_period behind s ! i =
     (if s ! i = CHR ''.''
         \<and> \<not> digit_behind (rev (take i s) @ behind)
         \<and> \<not> digit_ahead (drop (Suc i) s)
      then CHR '' '' else s ! i)"
  using assms
proof (induction s arbitrary: behind i)
  case Nil
  then show ?case by simp
next
  case (Cons c cs)
  show ?case
  proof (cases i)
    case 0
    then show ?thesis by simp
  next
    case (Suc j)
    with Cons.prems have j: "j < length cs" by simp
    show ?thesis
      using Cons.IH[OF j, of "c # behind"] Suc by simp
  qed
qed

text \<open>
  Decimal points and \<^verbatim>\<open>Std.Dev.\<close> keep their periods; so does a period beside a decimal digit
  that is not an ASCII one (here ARABIC-INDIC DIGIT THREE, U+0663, after the period).
\<close>

lemma remove_dots_examples:
  "remove_dots_name ''Nucleus..CD45..Percentile..99.9'' = ''Nucleus: CD45: Percentile: 99.9''"
  "remove_dots_name ''CD3.Cell..Std.Dev.'' = ''CD3.Cell: Std.Dev.''"
  "remove_dots_name ''Centroid.X.px'' = ''Centroid X px''"
  "remove_dots_name (''A.'' @ [CHR 0xD9, CHR 0xA3]) = ''A.'' @ [CHR 0xD9, CHR 0xA3]"
  by code_simp+

text \<open>
  C5. The final rule of the normalizer is claimed to turn every remaining period into a space
  unless it stands between two digits (or belongs to \<^verbatim>\<open>Std.Dev.\<close>), as the source comment
  "replaces periods with spaces when the period isn't between two numbers" says as well. The
  pattern of the source spares a period as soon as ONE neighbour is a digit: the exported name
  \<^verbatim>\<open>PD.1..Cell..Mean\<close> is normalised to \<^verbatim>\<open>PD.1: Cell: Mean\<close>, its period (a letter before, a
  digit after) still in place, where the claim gives \<^verbatim>\<open>PD 1: Cell: Mean\<close>.
\<close>

theorem remove_dots_spares_period_beside_one_digit:
  "remove_dots_name ''PD.1..Cell..Mean'' = ''PD.1: Cell: Mean''
   \<and> remove_dots_name ''PD.1..Cell..Mean'' \<noteq> ''PD 1: Cell: Mean''"
  by code_simp

end
